theory Spec2Isabelle
  imports Complex_Main
begin

section \<open>Data model of the report builder widget\<close>

text \<open>
  The widget is a JavaScript component whose \<open>this.state\<close> object holds the report
  definition. The four collections \<open>selectedFields\<close>, \<open>filters\<close>, \<open>groups\<close> and
  \<open>sorts\<close> are JavaScript arrays, that is, references to mutable objects: \<open>push\<close>
  and the swap of \<open>moveField\<close> change the array in place, and \<open>Object.assign\<close>
  copies the reference, not the array. The model therefore keeps an explicit store: the
  state holds a reference for each collection and the store maps references to array
  contents. The element objects of an array are created for that array alone (object
  literals, \<open>JSON.parse\<close>), so an array and its elements are one cell of the store.
\<close>

type_synonym ref = nat

text \<open>An entry of \<open>availableModels\<close>: \<open>{id, name, model}\<close>.\<close>

record Model =
  m_id :: int
  m_name :: string
  m_model :: string

text \<open>A field descriptor as the server returns it: \<open>{name, string, type}\<close>.\<close>

record FieldDesc =
  d_name :: string
  d_string :: string
  d_type :: string

text \<open>An element of \<open>selectedFields\<close>.\<close>

record FieldSpec =
  name :: string
  label :: string
  ftype :: string
  visible :: bool
  sequence :: int
  format_type :: string
  aggregation :: string

text \<open>An element of \<open>filters\<close>, as \<open>addFilter\<close> creates it.\<close>

record FilterSpec =
  f_id :: int
  field :: string
  field_type :: string
  operator :: string
  "value" :: string
  active :: bool

text \<open>Elements of \<open>sorts\<close> and \<open>groups\<close>.\<close>

record SortSpec =
  s_id :: int
  s_field :: string
  direction :: string

record GroupSpec =
  g_id :: int
  g_field :: string
  show_totals :: bool

text \<open>The object \<open>prepareFilters\<close> builds for each filter it keeps.\<close>

record PreparedFilter =
  pf_field :: string
  pf_operator :: string
  pf_value :: string

text \<open>
  The store: one map from references to contents for each kind of array, and the next
  unused reference.
\<close>

record store =
  fieldArrs :: "ref \<Rightarrow> FieldSpec list"
  filterArrs :: "ref \<Rightarrow> FilterSpec list"
  groupArrs :: "ref \<Rightarrow> GroupSpec list"
  sortArrs :: "ref \<Rightarrow> SortSpec list"
  nextRef :: ref

text \<open>
  The \<open>state\<close> member of a history entry: an object holding four arrays of its own.
\<close>

record Snapshot =
  snap_selectedFields :: ref
  snap_filters :: ref
  snap_groups :: ref
  snap_sorts :: ref

datatype hist_data = NoData | DataField string | DataCount nat | DataFilename string

record HistoryEntry =
  action :: string
  data :: hist_data
  timestamp :: int
  state :: Snapshot

text \<open>
  Rows of a report are opaque to the widget. \<open>reportData\<close> is \<open>null\<close>, an array of
  rows, or some other truthy value the server sent in \<open>result.data\<close>.
\<close>

type_synonym row = "(string \<times> string) list"

datatype report_data = DNull | DRows "row list" | DOther

fun truthy_data :: "report_data \<Rightarrow> bool" where
  "truthy_data DNull = False"
| "truthy_data (DRows rs) = True"
| "truthy_data DOther = True"

record ExecutionStats =
  totalExecutions :: int
  avgExecutionTime :: rat
  lastExecutionTime :: int

subsection \<open>Notifications and remote calls\<close>

text \<open>
  User-visible texts go through the translation function \<open>_t\<close>; the model names each
  translated literal of the source by a constructor. Translated literals are not empty.
\<close>

datatype msgid =
    ModelNotFound | FieldsLoaded | FieldsLoadError
  | FieldAdded | FieldAlreadyAdded | FieldDuplicated
  | AllFieldsAdded | FieldsAddedCount
  | SelectModel | AddOneField | FillFilterValues | FixErrors
  | TempReport | ExecuteError | LoadedFromCache
  | ActionUndone | NothingToUndo | ActionRedone | NothingToRedo

datatype msg = T msgid | S string | Cat msg msg | Join "msg list"

datatype severity = Success | Danger | Warning | Info

record notification =
  n_type :: severity
  sticky :: bool
  n_message :: msg

text \<open>
  The requests the widget sends: the two JSON-RPC routes and \<open>orm.create\<close> of a
  temporary report. They are recorded in the order they are issued.
\<close>

datatype request =
    GetModelFields string
  | CreateReport int
  | ExecuteReport int "PreparedFilter list" "int option"

text \<open>What an awaited call gives back: a rejection carrying an error message, or a value.\<close>

datatype 'a reply = Rejected string | Resolved 'a

record FieldsResult =
  fr_success :: bool
  fr_fields :: "FieldDesc list"
  fr_message :: string
  fr_error :: string

record ExecResult =
  er_success :: bool
  er_data :: report_data
  er_count :: int
  er_message :: string
  er_error :: string

subsection \<open>The component state\<close>

text \<open>
  The members of \<open>this.state\<close> that the functions below read or write, followed by
  the store and the two logs of effects (notifications shown, requests sent).
\<close>

record widget =
  selectedModel :: "Model option"
  availableModels :: "Model list"
  availableFields :: "FieldDesc list"
  selectedFields :: ref
  filters :: ref
  groups :: ref
  sorts :: ref
  reportData :: report_data
  reportCount :: int
  loading :: bool
  previewMode :: bool
  currentStep :: int
  errors :: "msg list"
  history :: "HistoryEntry list"
  historyIndex :: int
  cachedResults :: "string \<rightharpoonup> report_data"
  lastCacheKey :: "string option"
  executionStats :: ExecutionStats
  heap :: store
  notifications :: "notification list"
  requests :: "request list"

text \<open>Reading the live collections through their references.\<close>

definition fields_of :: "widget \<Rightarrow> FieldSpec list" where
  "fields_of s = fieldArrs (heap s) (selectedFields s)"

definition filters_of :: "widget \<Rightarrow> FilterSpec list" where
  "filters_of s = filterArrs (heap s) (filters s)"

definition groups_of :: "widget \<Rightarrow> GroupSpec list" where
  "groups_of s = groupArrs (heap s) (groups s)"

definition sorts_of :: "widget \<Rightarrow> SortSpec list" where
  "sorts_of s = sortArrs (heap s) (sorts s)"

text \<open>Writing the live \<open>selectedFields\<close> array in place.\<close>

definition set_fields :: "FieldSpec list \<Rightarrow> widget \<Rightarrow> widget" where
  "set_fields fs s =
     s\<lparr>heap := (heap s)\<lparr>fieldArrs := (fieldArrs (heap s))(selectedFields s := fs)\<rparr>\<rparr>"

text \<open>The contents of a stored snapshot.\<close>

definition snap_fields :: "widget \<Rightarrow> Snapshot \<Rightarrow> FieldSpec list" where
  "snap_fields s sn = fieldArrs (heap s) (snap_selectedFields sn)"

definition snap_filter_list :: "widget \<Rightarrow> Snapshot \<Rightarrow> FilterSpec list" where
  "snap_filter_list s sn = filterArrs (heap s) (snap_filters sn)"

definition snap_group_list :: "widget \<Rightarrow> Snapshot \<Rightarrow> GroupSpec list" where
  "snap_group_list s sn = groupArrs (heap s) (snap_groups sn)"

definition snap_sort_list :: "widget \<Rightarrow> Snapshot \<Rightarrow> SortSpec list" where
  "snap_sort_list s sn = sortArrs (heap s) (snap_sorts sn)"

text \<open>
  The state the extended widget starts in (the two \<open>setup()\<close> methods). The four
  empty arrays are four fresh objects.
\<close>

definition setup_widget :: widget where
  "setup_widget =
     \<lparr>selectedModel = None, availableModels = [], availableFields = [],
      selectedFields = 0, filters = 1, groups = 2, sorts = 3,
      reportData = DNull, reportCount = 0,
      loading = False, previewMode = False, currentStep = 1,
      errors = [],
      history = [], historyIndex = - 1,
      cachedResults = Map.empty, lastCacheKey = None,
      executionStats = \<lparr>totalExecutions = 0, avgExecutionTime = 0, lastExecutionTime = 0\<rparr>,
      heap = \<lparr>fieldArrs = (\<lambda>_. []), filterArrs = (\<lambda>_. []), groupArrs = (\<lambda>_. []),
               sortArrs = (\<lambda>_. []), nextRef = 4\<rparr>,
      notifications = [], requests = []\<rparr>"

section \<open>The base controller\<close>

subsection \<open>Notification helpers\<close>

text \<open>
  \<open>showError(title, error)\<close> shows \<open>error.message\<close> when it is given an
  \<open>Error\<close> object, and otherwise the string it is given, or the title when that
  string is empty or missing.
\<close>

datatype err_arg = NoErr | ErrObj msg | ErrStr msg

fun msg_empty :: "msg \<Rightarrow> bool" where
  "msg_empty (T i) = False"
| "msg_empty (S str) = (str = [])"
| "msg_empty (Cat a b) = (msg_empty a \<and> msg_empty b)"
| "msg_empty (Join ms) = (length ms \<le> 1 \<and> (\<forall>m \<in> set ms. msg_empty m))"

definition notify :: "severity \<Rightarrow> bool \<Rightarrow> msg \<Rightarrow> widget \<Rightarrow> widget" where
  "notify ty st m s =
     s\<lparr>notifications := notifications s @ [\<lparr>n_type = ty, sticky = st, n_message = m\<rparr>]\<rparr>"

definition showSuccess :: "msg \<Rightarrow> widget \<Rightarrow> widget" where
  "showSuccess m s = notify Success False m s"

definition showError :: "msg \<Rightarrow> err_arg \<Rightarrow> widget \<Rightarrow> widget" where
  "showError title err s =
     notify Danger True
       (case err of
          ErrObj m \<Rightarrow> m
        | ErrStr m \<Rightarrow> (if msg_empty m then title else m)
        | NoErr \<Rightarrow> title) s"

definition showWarning :: "msg \<Rightarrow> widget \<Rightarrow> widget" where
  "showWarning m s = notify Warning False m s"

definition showInfo :: "msg \<Rightarrow> widget \<Rightarrow> widget" where
  "showInfo m s = notify Info False m s"

subsection \<open>Helper transforms\<close>

text \<open>\<open>guessFormatType\<close>: the fixed table \<open>typeMap\<close>, with \<open>'text'\<close> as default.\<close>

definition guessFormatType :: "string \<Rightarrow> string" where
  "guessFormatType fieldType =
     (if fieldType = ''char'' then ''text''
      else if fieldType = ''text'' then ''text''
      else if fieldType = ''integer'' then ''number''
      else if fieldType = ''float'' then ''number''
      else if fieldType = ''monetary'' then ''currency''
      else if fieldType = ''date'' then ''date''
      else if fieldType = ''datetime'' then ''datetime''
      else if fieldType = ''boolean'' then ''boolean''
      else if fieldType = ''selection'' then ''selection''
      else ''text'')"

text \<open>
  \<open>prepareFilters\<close>: the filters that are active and have a field and a value (a string
  is truthy when it is not empty), each reduced to \<open>{field, operator, value}\<close>.
\<close>

definition prepareFilters :: "widget \<Rightarrow> PreparedFilter list" where
  "prepareFilters s =
     map (\<lambda>f. \<lparr>pf_field = field f, pf_operator = operator f, pf_value = value f\<rparr>)
       (filter (\<lambda>f. active f \<and> field f \<noteq> [] \<and> value f \<noteq> []) (filters_of s))"

text \<open>
  \<open>clearReportData\<close> assigns four new empty arrays and resets the results and the step.
\<close>

definition clearReportData :: "widget \<Rightarrow> widget" where
  "clearReportData s =
     (let h = heap s; n = nextRef h in
      s\<lparr>selectedFields := n, filters := n + 1, groups := n + 2, sorts := n + 3,
        reportData := DNull, reportCount := 0, currentStep := 1,
        heap := h\<lparr>fieldArrs := (fieldArrs h)(n := []),
                  filterArrs := (filterArrs h)(n + 1 := []),
                  groupArrs := (groupArrs h)(n + 2 := []),
                  sortArrs := (sortArrs h)(n + 3 := []),
                  nextRef := n + 4\<rparr>\<rparr>)"

definition clearModelData :: "widget \<Rightarrow> widget" where
  "clearModelData s = clearReportData (s\<lparr>selectedModel := None, availableFields := []\<rparr>)"

subsection \<open>Changing the model\<close>

text \<open>
  \<open>onModelChange(modelId)\<close>. The argument is \<open>null\<close> or a number, falsy when it is
  \<open>null\<close> or \<open>0\<close>. The second argument of the model is what the awaited call to
  \<open>/universal_reports/get_model_fields\<close> gives back; it is read only when the call is
  made. The \<open>catch\<close> block shows the error and the \<open>finally\<close> block clears
  \<open>loading\<close> on every path that entered the \<open>try\<close>.
\<close>

definition falsy_id :: "int option \<Rightarrow> bool" where
  "falsy_id modelId = (case modelId of None \<Rightarrow> True | Some i \<Rightarrow> i = 0)"

definition onModelChange :: "int option \<Rightarrow> FieldsResult reply \<Rightarrow> widget \<Rightarrow> widget" where
  "onModelChange modelId rpc_reply s =
     (if falsy_id modelId then clearModelData s
      else
        let s1 = s\<lparr>loading := True, errors := []\<rparr> in
        (case find (\<lambda>m. Some (m_id m) = modelId) (availableModels s1) of
           None \<Rightarrow>
             (showError (T FieldsLoadError) (ErrObj (T ModelNotFound)) s1)\<lparr>loading := False\<rparr>
         | Some model \<Rightarrow>
             let s2 = s1\<lparr>selectedModel := Some model,
                        requests := requests s1 @ [GetModelFields (m_model model)]\<rparr> in
             (case rpc_reply of
                Rejected e \<Rightarrow>
                  (showError (T FieldsLoadError) (ErrObj (S e)) s2)\<lparr>loading := False\<rparr>
              | Resolved result \<Rightarrow>
                  if fr_success result then
                    (showSuccess
                       (if fr_message result \<noteq> [] then S (fr_message result) else T FieldsLoaded)
                       (clearReportData (s2\<lparr>availableFields := fr_fields result\<rparr>)))
                    \<lparr>loading := False\<rparr>
                  else
                    (showError (T FieldsLoadError) (ErrObj (S (fr_error result))) s2)
                    \<lparr>loading := False\<rparr>)))"

subsection \<open>Selected fields\<close>

text \<open>\<open>Array.prototype.findIndex\<close>: the first index whose element passes, or \<open>-1\<close>.\<close>

fun findIndex :: "('a \<Rightarrow> bool) \<Rightarrow> 'a list \<Rightarrow> int" where
  "findIndex P [] = - 1"
| "findIndex P (x # xs) =
     (if P x then 0 else (let r = findIndex P xs in if r = - 1 then - 1 else r + 1))"

text \<open>\<open>addField(field)\<close>: push unless a field of that name is selected already.\<close>

definition addField :: "FieldDesc \<Rightarrow> widget \<Rightarrow> widget" where
  "addField fd s =
     (if find (\<lambda>f. name f = d_name fd) (fields_of s) = None then
        showSuccess (Cat (T FieldAdded) (S (d_string fd)))
          (set_fields
             (fields_of s @
              [\<lparr>name = d_name fd, label = d_string fd, ftype = d_type fd, visible = True,
                sequence = int (length (fields_of s)) + 1,
                format_type = guessFormatType (d_type fd), aggregation = ''none''\<rparr>]) s)
      else showWarning (T FieldAlreadyAdded) s)"

text \<open>
  \<open>moveField(fieldName, direction)\<close>: every direction other than \<open>'up'\<close> moves down.
  The swap and the renumbering happen in the live array, and only when the new index is
  inside it.
\<close>

definition renumber :: "FieldSpec list \<Rightarrow> FieldSpec list" where
  "renumber fs = map (\<lambda>(idx, f). f\<lparr>sequence := int idx + 1\<rparr>) (enumerate 0 fs)"

definition moveField :: "string \<Rightarrow> string \<Rightarrow> widget \<Rightarrow> widget" where
  "moveField fieldName dir s =
     (let fields = fields_of s;
          index = findIndex (\<lambda>f. name f = fieldName) fields in
      if index = - 1 then s
      else
        let newIndex = (if dir = ''up'' then index - 1 else index + 1) in
        if newIndex \<ge> 0 \<and> newIndex < int (length fields) then
          set_fields
            (renumber (fields[nat index := fields ! nat newIndex,
                             nat newIndex := fields ! nat index])) s
        else s)"

subsection \<open>Validation and execution\<close>

text \<open>
  \<open>validateReportSettings()\<close> returns a boolean and leaves the messages in
  \<open>state.errors\<close>.
\<close>

definition invalidFilters :: "widget \<Rightarrow> FilterSpec list" where
  "invalidFilters s =
     filter (\<lambda>f. active f \<and> field f \<noteq> [] \<and> value f = [] \<and> operator f \<noteq> ''!='')
       (filters_of s)"

definition validateReportSettings :: "widget \<Rightarrow> bool \<times> widget" where
  "validateReportSettings s =
     (let s0 = s\<lparr>errors := []\<rparr>;
          s1 = (if selectedModel s0 = None
                then s0\<lparr>errors := errors s0 @ [T SelectModel]\<rparr> else s0);
          s2 = (if length (fields_of s1) = 0
                then s1\<lparr>errors := errors s1 @ [T AddOneField]\<rparr> else s1);
          s3 = (if length (invalidFilters s2) > 0
                then s2\<lparr>errors := errors s2 @ [T FillFilterValues]\<rparr> else s2)
      in if length (errors s3) > 0
         then (False, showError (T FixErrors) (ErrStr (Join (errors s3))) s3)
         else (True, s3))"

text \<open>
  \<open>executeReport()\<close>, with \<open>createTempReport()\<close> inlined. The two extra arguments
  are what \<open>orm.create\<close> and \<open>/universal_reports/execute_report\<close> give back. Reading
  \<open>selectedModel.id\<close> of a \<open>null\<close> model is a \<open>TypeError\<close>, caught like every other
  error of the \<open>try\<close> block.
\<close>

definition executeReport :: "int reply \<Rightarrow> ExecResult reply \<Rightarrow> widget \<Rightarrow> widget" where
  "executeReport orm_reply rpc_reply s =
     (case validateReportSettings s of
        (False, s') \<Rightarrow> s'
      | (True, s') \<Rightarrow>
          let s1 = s'\<lparr>loading := True, errors := []\<rparr> in
          (case selectedModel s1 of
             None \<Rightarrow> (showError (T ExecuteError) (ErrObj (S ''TypeError'')) s1)\<lparr>loading := False\<rparr>
           | Some model \<Rightarrow>
               let s2 = s1\<lparr>requests := requests s1 @ [CreateReport (m_id model)]\<rparr> in
               (case orm_reply of
                  Rejected e \<Rightarrow>
                    (showError (T ExecuteError) (ErrObj (S e)) s2)\<lparr>loading := False\<rparr>
                | Resolved reportId \<Rightarrow>
                    let s3 = s2\<lparr>requests := requests s2 @
                                 [ExecuteReport reportId (prepareFilters s2)
                                    (if previewMode s2 then Some 100 else None)]\<rparr> in
                    (case rpc_reply of
                       Rejected e \<Rightarrow>
                         (showError (T ExecuteError) (ErrObj (S e)) s3)\<lparr>loading := False\<rparr>
                     | Resolved result \<Rightarrow>
                         if er_success result then
                           (showSuccess (S (er_message result))
                              (s3\<lparr>reportData := er_data result,
                                  reportCount := er_count result\<rparr>))
                           \<lparr>currentStep := 4, loading := False\<rparr>
                         else
                           (showError (T ExecuteError) (ErrObj (S (er_error result))) s3)
                           \<lparr>loading := False\<rparr>))))"

section \<open>The extended controller\<close>

subsection \<open>History\<close>

text \<open>
  \<open>Array.prototype.slice(0, end)\<close>: a negative \<open>end\<close> counts from the end of the
  array, and the result is clipped to the array. Reading \<open>xs[i]\<close> outside the array
  gives \<open>undefined\<close>.
\<close>

definition slice0 :: "'a list \<Rightarrow> int \<Rightarrow> 'a list" where
  "slice0 xs e =
     (let n = int (length xs);
          k = (if e < 0 then max (n + e) 0 else min e n)
      in take (nat k) xs)"

definition at_index :: "'a list \<Rightarrow> int \<Rightarrow> 'a option" where
  "at_index xs i = (if 0 \<le> i \<and> i < int (length xs) then Some (xs ! nat i) else None)"

text \<open>
  The deep copy \<open>JSON.parse(JSON.stringify({...}))\<close> of \<open>addToHistory\<close>: four new
  arrays with the contents the live arrays have at that moment.
\<close>

definition deepCopy :: "widget \<Rightarrow> Snapshot \<times> store" where
  "deepCopy s =
     (let h = heap s; n = nextRef h in
      (\<lparr>snap_selectedFields = n, snap_filters = n + 1, snap_groups = n + 2,
        snap_sorts = n + 3\<rparr>,
       h\<lparr>fieldArrs := (fieldArrs h)(n := fields_of s),
         filterArrs := (filterArrs h)(n + 1 := filters_of s),
         groupArrs := (groupArrs h)(n + 2 := groups_of s),
         sortArrs := (sortArrs h)(n + 3 := sorts_of s),
         nextRef := n + 4\<rparr>))"

text \<open>\<open>addToHistory(action, data)\<close>; \<open>now\<close> is the value of \<open>Date.now()\<close>.\<close>

definition addToHistory :: "string \<Rightarrow> hist_data \<Rightarrow> int \<Rightarrow> widget \<Rightarrow> widget" where
  "addToHistory act dat now s =
     (let (snap, h') = deepCopy s;
          historyItem = \<lparr>action = act, data = dat, timestamp = now, state = snap\<rparr>;
          s1 = s\<lparr>heap := h'\<rparr>;
          s2 = (if historyIndex s1 < int (length (history s1)) - 1
                then s1\<lparr>history := slice0 (history s1) (historyIndex s1 + 1)\<rparr>
                else s1);
          s3 = s2\<lparr>history := history s2 @ [historyItem]\<rparr>;
          s4 = s3\<lparr>historyIndex := int (length (history s3)) - 1\<rparr>
      in if length (history s4) > 50
         then s4\<lparr>history := tl (history s4), historyIndex := historyIndex s4 - 1\<rparr>
         else s4)"

text \<open>
  \<open>restoreState(savedState)\<close> is \<open>Object.assign(this.state, savedState)\<close>: the four
  members of the state are set to the four arrays of the snapshot themselves.
\<close>

definition restoreState :: "Snapshot \<Rightarrow> widget \<Rightarrow> widget" where
  "restoreState savedState s =
     s\<lparr>selectedFields := snap_selectedFields savedState,
       filters := snap_filters savedState,
       groups := snap_groups savedState,
       sorts := snap_sorts savedState\<rparr>"

text \<open>
  \<open>undo()\<close> and \<open>redo()\<close>. Reading \<open>.state\<close> of a missing entry is a
  \<open>TypeError\<close> that nothing catches; the index has been moved by then.
\<close>

datatype error = TypeError

definition undo :: "widget \<Rightarrow> error \<times> widget + widget" where
  "undo s =
     (if historyIndex s > 0 then
        let s1 = s\<lparr>historyIndex := historyIndex s - 1\<rparr> in
        (case at_index (history s1) (historyIndex s1) of
           None \<Rightarrow> Inl (TypeError, s1)
         | Some entry \<Rightarrow> Inr (showInfo (T ActionUndone) (restoreState (state entry) s1)))
      else Inr (showWarning (T NothingToUndo) s))"

definition redo :: "widget \<Rightarrow> error \<times> widget + widget" where
  "redo s =
     (if historyIndex s < int (length (history s)) - 1 then
        let s1 = s\<lparr>historyIndex := historyIndex s + 1\<rparr> in
        (case at_index (history s1) (historyIndex s1) of
           None \<Rightarrow> Inl (TypeError, s1)
         | Some entry \<Rightarrow> Inr (showInfo (T ActionRedone) (restoreState (state entry) s1)))
      else Inr (showWarning (T NothingToRedo) s))"

subsection \<open>Duplicating and bulk-adding fields\<close>

text \<open>
  The label suffix of \<open>duplicateField\<close> is a space and, in parentheses, the Ukrainian
  word for "copy"; it is given here by its UTF-8 bytes.
\<close>

definition copy_suffix :: string where
  "copy_suffix =
     '' ('' @ [CHR 0xD0, CHR 0xBA, CHR 0xD0, CHR 0xBE, CHR 0xD0, CHR 0xBF,
              CHR 0xD1, CHR 0x96, CHR 0xD1, CHR 0x8F] @ '')''"

definition duplicateField :: "string \<Rightarrow> int \<Rightarrow> widget \<Rightarrow> widget" where
  "duplicateField fieldName now s =
     (case find (\<lambda>f. name f = fieldName) (fields_of s) of
        None \<Rightarrow> s
      | Some originalField \<Rightarrow>
          let duplicatedField =
                originalField\<lparr>label := label originalField @ copy_suffix,
                              sequence := int (length (fields_of s)) + 1\<rparr>;
              s1 = set_fields (fields_of s @ [duplicatedField]) s;
              s2 = addToHistory ''duplicate_field'' (DataField fieldName) now s1
          in showSuccess (T FieldDuplicated) s2)"

text \<open>
  \<open>bulkAddFields()\<close> either warns or opens the selection dialog on the fields that are
  not selected yet; the dialog later calls \<open>onConfirm\<close> with the user's choice.
\<close>

definition bulkCandidates :: "widget \<Rightarrow> FieldDesc list" where
  "bulkCandidates s =
     filter (\<lambda>af. find (\<lambda>sf. name sf = d_name af) (fields_of s) = None) (availableFields s)"

definition bulkAddFields :: "widget \<Rightarrow> widget \<times> FieldDesc list option" where
  "bulkAddFields s =
     (if length (bulkCandidates s) = 0 then (showWarning (T AllFieldsAdded) s, None)
      else (s, Some (bulkCandidates s)))"

text \<open>
  The \<open>forEach\<close> of \<open>onConfirm\<close>: the callback reads the length of the live array,
  which the pushes before it have already extended, and adds the index of the element.
\<close>

fun forEach_push :: "FieldDesc list \<Rightarrow> nat \<Rightarrow> widget \<Rightarrow> widget" where
  "forEach_push [] index s = s"
| "forEach_push (fd # rest) index s =
     forEach_push rest (Suc index)
       (set_fields
          (fields_of s @
           [\<lparr>name = d_name fd, label = d_string fd, ftype = d_type fd, visible = True,
             sequence = int (length (fields_of s)) + int index + 1,
             format_type = guessFormatType (d_type fd), aggregation = ''none''\<rparr>]) s)"

text \<open>Decimal digits of a natural number, for numbers shown in messages and in JSON.\<close>

definition digit_char :: "nat \<Rightarrow> char" where
  "digit_char d = ''0123456789abcdef'' ! d"

fun digits :: "nat \<Rightarrow> string" where
  "digits n = (if n < 10 then [digit_char n] else digits (n div 10) @ [digit_char (n mod 10)])"

declare digits.simps [simp del]

definition onConfirm :: "FieldDesc list \<Rightarrow> int \<Rightarrow> widget \<Rightarrow> widget" where
  "onConfirm chosen now s =
     (let s1 = forEach_push chosen 0 s;
          s2 = addToHistory ''bulk_add_fields'' (DataCount (length chosen)) now s1
      in showSuccess (Cat (T FieldsAddedCount) (S (digits (length chosen)))) s2)"

subsection \<open>Cached execution\<close>

text \<open>
  The cache key is \<open>JSON.stringify\<close> of an object literal. The values that occur are
  strings, numbers (identifiers, so integers), booleans, arrays and objects; a member
  whose value is \<open>undefined\<close> is left out of the text.
\<close>

datatype json =
    JBool bool
  | JNum int
  | JStr string
  | JArr "json list"
  | JObj "(string \<times> json) list"

definition escape_char :: "char \<Rightarrow> string" where
  "escape_char c =
     (if c = CHR 0x22 then [CHR 0x5C, CHR 0x22]
      else if c = CHR 0x5C then [CHR 0x5C, CHR 0x5C]
      else if c = CHR 0x08 then [CHR 0x5C, CHR ''b'']
      else if c = CHR 0x09 then [CHR 0x5C, CHR ''t'']
      else if c = CHR 0x0A then [CHR 0x5C, CHR ''n'']
      else if c = CHR 0x0C then [CHR 0x5C, CHR ''f'']
      else if c = CHR 0x0D then [CHR 0x5C, CHR ''r'']
      else if (of_char c :: nat) < 32
        then [CHR 0x5C, CHR ''u'', CHR ''0'', CHR ''0'',
              digit_char ((of_char c :: nat) div 16), digit_char ((of_char c :: nat) mod 16)]
      else [c])"

definition quote :: "string \<Rightarrow> string" where
  "quote str = [CHR 0x22] @ concat (map escape_char str) @ [CHR 0x22]"

fun join :: "string \<Rightarrow> string list \<Rightarrow> string" where
  "join sep [] = []"
| "join sep [x] = x"
| "join sep (x # y # ys) = x @ sep @ join sep (y # ys)"

fun stringify :: "json \<Rightarrow> string" where
  "stringify (JBool b) = (if b then ''true'' else ''false'')"
| "stringify (JNum n) = (if n < 0 then ''-'' @ digits (nat (- n)) else digits (nat n))"
| "stringify (JStr str) = quote str"
| "stringify (JArr xs) = ''['' @ join '','' (map stringify xs) @ '']''"
| "stringify (JObj kvs) =
     ''{'' @ join '','' (map (\<lambda>(k, v). quote k @ '':'' @ stringify v) kvs) @ ''}''"

definition json_of_filter :: "PreparedFilter \<Rightarrow> json" where
  "json_of_filter f =
     JObj [(''field'', JStr (pf_field f)), (''operator'', JStr (pf_operator f)),
           (''value'', JStr (pf_value f))]"

definition json_of_sort :: "SortSpec \<Rightarrow> json" where
  "json_of_sort x =
     JObj [(''id'', JNum (s_id x)), (''field'', JStr (s_field x)),
           (''direction'', JStr (direction x))]"

definition json_of_group :: "GroupSpec \<Rightarrow> json" where
  "json_of_group g =
     JObj [(''id'', JNum (g_id g)), (''field'', JStr (g_field g)),
           (''show_totals'', JBool (show_totals g))]"

text \<open>
  \<open>generateCacheKey()\<close>. \<open>selectedModel?.model\<close> is \<open>undefined\<close> when no model is
  selected, and the member \<open>model\<close> is then absent from the key.
\<close>

definition generateCacheKey :: "widget \<Rightarrow> string" where
  "generateCacheKey s =
     stringify (JObj
       ((case selectedModel s of None \<Rightarrow> [] | Some m \<Rightarrow> [(''model'', JStr (m_model m))]) @
        [(''fields'', JArr (map (\<lambda>f. JStr (name f)) (fields_of s))),
         (''filters'', JArr (map json_of_filter (prepareFilters s))),
         (''sorts'', JArr (map json_of_sort (filter (\<lambda>x. s_field x \<noteq> []) (sorts_of s)))),
         (''groups'', JArr (map json_of_group (filter (\<lambda>g. g_field g \<noteq> []) (groups_of s))))]))"

text \<open>
  \<open>updateExecutionStats(executionTime)\<close>. The average is a JavaScript number; the model
  computes it exactly, as a rational.
\<close>

definition updateExecutionStats :: "int \<Rightarrow> widget \<Rightarrow> widget" where
  "updateExecutionStats executionTime s =
     (let stats = executionStats s;
          n = totalExecutions stats + 1
      in s\<lparr>executionStats :=
             \<lparr>totalExecutions = n,
              avgExecutionTime =
                (avgExecutionTime stats * of_int (n - 1) + of_int executionTime) / of_int n,
              lastExecutionTime = executionTime\<rparr>\<rparr>)"

text \<open>
  \<open>executeWithCache()\<close>. \<open>startTime\<close> and \<open>endTime\<close> are the two readings of
  \<open>Date.now()\<close>; the two replies are handed on to \<open>executeReport\<close> and are not read
  when the key is in the cache.
\<close>

definition executeWithCache ::
  "int \<Rightarrow> int \<Rightarrow> int reply \<Rightarrow> ExecResult reply \<Rightarrow> widget \<Rightarrow> widget" where
  "executeWithCache startTime endTime orm_reply rpc_reply s =
     (let cacheKey = generateCacheKey s in
      case cachedResults s cacheKey of
        Some cached \<Rightarrow>
          showInfo (T LoadedFromCache)
            (s\<lparr>reportData := cached,
               reportCount := (case cached of DRows rs \<Rightarrow> int (length rs) | _ \<Rightarrow> 0)\<rparr>)
      | None \<Rightarrow>
          let s1 = executeReport orm_reply rpc_reply s;
              executionTime = endTime - startTime;
              s2 = (if truthy_data (reportData s1)
                    then s1\<lparr>cachedResults := (cachedResults s1)(cacheKey \<mapsto> reportData s1),
                            lastCacheKey := Some cacheKey\<rparr>
                    else s1)
          in updateExecutionStats executionTime s2)"

section \<open>Sequences of calls and well-formed states\<close>

text \<open>
  The cursor of a history is in range when it is \<open>-1\<close> (nothing logged yet) or the index
  of an entry.
\<close>

definition history_ok :: "widget \<Rightarrow> bool" where
  "history_ok s = (- 1 \<le> historyIndex s \<and> historyIndex s < int (length (history s)))"

text \<open>A sequence of calls of \<open>addToHistory\<close>, each with its arguments and its time.\<close>

fun addToHistory_calls :: "(string \<times> hist_data \<times> int) list \<Rightarrow> widget \<Rightarrow> widget" where
  "addToHistory_calls [] s = s"
| "addToHistory_calls ((act, dat, now) # cs) s =
     addToHistory_calls cs (addToHistory act dat now s)"

text \<open>The part of the log that \<open>addToHistory\<close> keeps before it appends.\<close>

definition kept_history :: "widget \<Rightarrow> HistoryEntry list" where
  "kept_history s =
     (if historyIndex s < int (length (history s)) - 1
      then slice0 (history s) (historyIndex s + 1) else history s)"

subsection \<open>Concrete states used as examples\<close>

definition entry0 :: HistoryEntry where
  "entry0 = \<lparr>action = ''x'', data = NoData, timestamp = 0,
             state = \<lparr>snap_selectedFields = 0, snap_filters = 1, snap_groups = 2,
                      snap_sorts = 3\<rparr>\<rparr>"

definition full_history :: widget where
  "full_history = setup_widget\<lparr>history := replicate 50 entry0, historyIndex := 49\<rparr>"

definition partner :: Model where
  "partner = \<lparr>m_id = 1, m_name = ''Contact'', m_model = ''res.partner''\<rparr>"

definition sale_order :: Model where
  "sale_order = \<lparr>m_id = 2, m_name = ''Sales Order'', m_model = ''sale.order''\<rparr>"

definition fd_name :: FieldDesc where
  "fd_name = \<lparr>d_name = ''name'', d_string = ''Name'', d_type = ''char''\<rparr>"

definition fd_email :: FieldDesc where
  "fd_email = \<lparr>d_name = ''email'', d_string = ''Email'', d_type = ''char''\<rparr>"

definition fd_total :: FieldDesc where
  "fd_total = \<lparr>d_name = ''amount_total'', d_string = ''Total'', d_type = ''monetary''\<rparr>"

text \<open>The model "Contact" is selected and its three fields are loaded.\<close>

definition partner_loaded :: widget where
  "partner_loaded =
     setup_widget\<lparr>availableModels := [partner, sale_order], selectedModel := Some partner,
                  availableFields := [fd_name, fd_email, fd_total]\<rparr>"

definition one_field :: widget where
  "one_field = addField fd_name partner_loaded"

definition two_fields :: widget where
  "two_fields = addField fd_email one_field"

text \<open>An active filter on \<open>name\<close> whose value has not been filled in.\<close>

definition blank_filter :: FilterSpec where
  "blank_filter =
     \<lparr>f_id = 5, field = ''name'', field_type = ''char'', operator = ''='', value = [],
      active = True\<rparr>"

definition with_blank_filter :: widget where
  "with_blank_filter =
     one_field\<lparr>heap := (heap one_field)\<lparr>filterArrs :=
       (filterArrs (heap one_field))(filters one_field := [blank_filter])\<rparr>\<rparr>"

text \<open>A report that ran once with success, so that its result is in the cache.\<close>

definition rows1 :: report_data where
  "rows1 = DRows [[(''name'', ''Ann'')], [(''name'', ''Bob'')]]"

definition ok_result :: ExecResult where
  "ok_result =
     \<lparr>er_success = True, er_data = rows1, er_count = 2, er_message = ''done'',
      er_error = []\<rparr>"

definition first_run :: widget where
  "first_run = executeWithCache 100 250 (Resolved 9) (Resolved ok_result) one_field"

text \<open>
  The state a call leaves behind, whether it returned or threw.
\<close>

definition after :: "error \<times> widget + widget \<Rightarrow> widget" where
  "after r = (case r of Inl (e, s) \<Rightarrow> s | Inr s \<Rightarrow> s)"

text \<open>
  A session: one field is selected and logged, the field is duplicated, the duplication
  is undone, the field is duplicated again, and that is undone too.
\<close>

definition logged1 :: widget where
  "logged1 = addToHistory ''first'' NoData 1 one_field"

definition logged2 :: widget where
  "logged2 = duplicateField ''name'' 2 logged1"

definition undone :: widget where
  "undone = after (undo logged2)"

definition again :: widget where
  "again = duplicateField ''name'' 3 undone"

definition undone_again :: widget where
  "undone_again = after (undo again)"

subsection \<open>What a call of undo or redo may change\<close>

text \<open>
  The cursor is on entry \<open>i\<close> and the four collections are the arrays of that entry.
\<close>

definition moved_to :: "widget \<Rightarrow> int \<Rightarrow> widget \<Rightarrow> bool" where
  "moved_to s i s' =
     (0 \<le> i \<and> i < int (length (history s)) \<and> historyIndex s' = i
      \<and> selectedFields s' = snap_selectedFields (state (history s ! nat i))
      \<and> filters s' = snap_filters (state (history s ! nat i))
      \<and> groups s' = snap_groups (state (history s ! nat i))
      \<and> sorts s' = snap_sorts (state (history s ! nat i)))"

text \<open>The cursor and the four collections are what they were.\<close>

definition stayed :: "widget \<Rightarrow> widget \<Rightarrow> bool" where
  "stayed s s' =
     (historyIndex s' = historyIndex s \<and> selectedFields s' = selectedFields s
      \<and> filters s' = filters s \<and> groups s' = groups s \<and> sorts s' = sorts s)"

text \<open>
  Apart from the cursor, the four collections and the notifications shown, the two states
  are equal: the log, the store and every other member are the same.
\<close>

definition same_elsewhere :: "widget \<Rightarrow> widget \<Rightarrow> bool" where
  "same_elsewhere s s' =
     (s'\<lparr>historyIndex := historyIndex s, selectedFields := selectedFields s,
         filters := filters s, groups := groups s, sorts := sorts s,
         notifications := notifications s\<rparr> = s)"

text \<open>The object that \<open>addField\<close> and \<open>onConfirm\<close> push for a field descriptor.\<close>

definition new_spec :: "FieldDesc \<Rightarrow> int \<Rightarrow> FieldSpec" where
  "new_spec fd n =
     \<lparr>name = d_name fd, label = d_string fd, ftype = d_type fd, visible = True,
      sequence = n, format_type = guessFormatType (d_type fd), aggregation = ''none''\<rparr>"

text \<open>The two field objects of the session, and the snapshot made at reference \<open>n\<close>.\<close>

definition nm :: FieldSpec where
  "nm = new_spec fd_name 1"

definition cp :: FieldSpec where
  "cp = nm\<lparr>label := label nm @ copy_suffix, sequence := 2\<rparr>"

definition snap_at :: "nat \<Rightarrow> Snapshot" where
  "snap_at n =
     \<lparr>snap_selectedFields = n, snap_filters = n + 1, snap_groups = n + 2,
      snap_sorts = n + 3\<rparr>"


section \<open>Validation\<close>

lemma validate_fst:
  "fst (validateReportSettings s) =
     (\<not> (selectedModel s = None \<or> fields_of s = [] \<or> invalidFilters s \<noteq> []))"
  by (simp add: validateReportSettings_def Let_def fields_of_def invalidFilters_def
      filters_of_def showError_def notify_def)

lemma validate_errors:
  "errors (snd (validateReportSettings s)) =
     (if selectedModel s = None then [T SelectModel] else []) @
     (if fields_of s = [] then [T AddOneField] else []) @
     (if invalidFilters s \<noteq> [] then [T FillFilterValues] else [])"
  by (simp add: validateReportSettings_def Let_def fields_of_def invalidFilters_def
      filters_of_def showError_def notify_def)

lemma invalidFilters_nonempty:
  "(invalidFilters s \<noteq> []) =
     (\<exists>f \<in> set (filters_of s).
        active f \<and> field f \<noteq> [] \<and> value f = [] \<and> operator f \<noteq> ''!='')"
  by (auto simp add: invalidFilters_def filter_empty_conv)

text \<open>
  Claim C6. \<open>validateReportSettings\<close> returns false and leaves at least one message in
  \<open>state.errors\<close> exactly when no model is selected, or no field is selected, or some
  filter is active, has a field, has an empty value and an operator other than \<open>'!='\<close>;
  in every other state it returns true and \<open>state.errors\<close> is empty.
\<close>

theorem validateReportSettings_iff:
  "((fst (validateReportSettings s) = False \<and> errors (snd (validateReportSettings s)) \<noteq> [])
     = (selectedModel s = None \<or> fields_of s = [] \<or>
        (\<exists>f \<in> set (filters_of s).
           active f \<and> field f \<noteq> [] \<and> value f = [] \<and> operator f \<noteq> ''!='')))
   \<and> (\<not> (selectedModel s = None \<or> fields_of s = [] \<or>
        (\<exists>f \<in> set (filters_of s).
           active f \<and> field f \<noteq> [] \<and> value f = [] \<and> operator f \<noteq> ''!=''))
       \<longrightarrow> fst (validateReportSettings s) = True
           \<and> errors (snd (validateReportSettings s)) = [])"
  unfolding validate_fst validate_errors invalidFilters_nonempty by auto

section \<open>The capacity of the history\<close>

lemma history_addToHistory:
  "history (addToHistory a d t s) =
     (let h = kept_history s @
                [\<lparr>action = a, data = d, timestamp = t, state = fst (deepCopy s)\<rparr>]
      in if length h > 50 then tl h else h)"
  by (simp add: addToHistory_def kept_history_def Let_def split_beta)

lemma historyIndex_addToHistory:
  "historyIndex (addToHistory a d t s) = int (length (history (addToHistory a d t s))) - 1"
  by (simp add: addToHistory_def Let_def split_beta)

lemma length_kept_history: "length (kept_history s) \<le> length (history s)"
  by (simp add: kept_history_def slice0_def Let_def)

lemma length_addToHistory_le:
  "length (history s) \<le> 50 \<Longrightarrow> length (history (addToHistory a d t s)) \<le> 50"
  using length_kept_history [of s] by (simp add: history_addToHistory Let_def)

lemma kept_history_at_end:
  "historyIndex s = int (length (history s)) - 1 \<Longrightarrow> kept_history s = history s"
  by (simp add: kept_history_def)

lemma addToHistory_evicts:
  assumes "length (history s) = 50" "historyIndex s = 49"
  shows "history (addToHistory a d t s) =
           tl (history s) @ [\<lparr>action = a, data = d, timestamp = t, state = fst (deepCopy s)\<rparr>]"
proof -
  have k: "kept_history s = history s" using assms by (simp add: kept_history_at_end)
  have ne: "history s \<noteq> []" using assms by auto
  show ?thesis using assms ne by (simp add: history_addToHistory k Let_def)
qed

lemma calls_length_le:
  "length (history s) \<le> 50 \<Longrightarrow> length (history (addToHistory_calls cs s)) \<le> 50"
  by (induction cs arbitrary: s) (auto simp: length_addToHistory_le)

lemma calls_index:
  "cs \<noteq> [] \<Longrightarrow> historyIndex (addToHistory_calls cs s)
      = int (length (history (addToHistory_calls cs s))) - 1"
proof (induction cs arbitrary: s)
  case Nil then show ?case by simp
next
  case (Cons c cs)
  obtain a d t where c: "c = (a, d, t)" by (cases c)
  show ?case
  proof (cases cs)
    case Nil
    then show ?thesis by (simp add: c historyIndex_addToHistory)
  next
    case (Cons c' cs')
    then show ?thesis using Cons.IH [of "addToHistory a d t s"] by (simp add: c)
  qed
qed

lemma length_addToHistory_at_end:
  "historyIndex s = int (length (history s)) - 1 \<Longrightarrow> length (history s) \<le> 50 \<Longrightarrow>
   length (history (addToHistory a d t s)) = min (Suc (length (history s))) 50"
  by (simp add: history_addToHistory kept_history_at_end Let_def)

lemma calls_length_at_end:
  "historyIndex s = int (length (history s)) - 1 \<Longrightarrow> length (history s) \<le> 50 \<Longrightarrow>
   length (history (addToHistory_calls cs s)) = min (length (history s) + length cs) 50"
proof (induction cs arbitrary: s)
  case Nil then show ?case by simp
next
  case (Cons c cs)
  obtain a d t where c: "c = (a, d, t)" by (cases c)
  let ?s = "addToHistory a d t s"
  have 1: "historyIndex ?s = int (length (history ?s)) - 1" by (rule historyIndex_addToHistory)
  have 2: "length (history ?s) = min (Suc (length (history s))) 50"
    using Cons.prems by (simp add: length_addToHistory_at_end)
  have 3: "length (history ?s) \<le> 50" using 2 by simp
  show ?case using Cons.IH [OF 1 3] 2 Cons.prems by (simp add: c)
qed

text \<open>
  Claim C2. Along every sequence of calls of \<open>addToHistory\<close> that starts with at most 50
  entries, the log never has more than 50 entries, and after each call the cursor is the
  index of the last entry. When the log holds 50 entries with the cursor on the last one,
  the next call drops the oldest entry, appends the new one, and the cursor, decremented
  after the append, is again the index of the last entry. Started from the initial state,
  \<open>n\<close> calls leave \<open>min n 50\<close> entries.
\<close>

theorem addToHistory_capacity:
  "(length (history s) \<le> 50 \<longrightarrow> length (history (addToHistory_calls cs s)) \<le> 50)
   \<and> (cs \<noteq> [] \<longrightarrow> historyIndex (addToHistory_calls cs s)
         = int (length (history (addToHistory_calls cs s))) - 1)
   \<and> (length (history s) = 50 \<and> historyIndex s = 49 \<longrightarrow>
        history (addToHistory a d t s) =
          tl (history s) @ [\<lparr>action = a, data = d, timestamp = t, state = fst (deepCopy s)\<rparr>]
        \<and> historyIndex (addToHistory a d t s) = historyIndex s
        \<and> historyIndex (addToHistory a d t s)
            = int (length (history (addToHistory a d t s))) - 1)
   \<and> length (history (addToHistory_calls cs setup_widget)) = min (length cs) 50"
proof -
  have "length (history (addToHistory_calls cs setup_widget)) = min (length cs) 50"
    using calls_length_at_end [of setup_widget cs] by (simp add: setup_widget_def)
  moreover have "length (history s) = 50 \<and> historyIndex s = 49 \<longrightarrow>
        historyIndex (addToHistory a d t s) = historyIndex s"
    using historyIndex_addToHistory [of a d t s] addToHistory_evicts [of s a d t] by auto
  ultimately show ?thesis
    using calls_length_le [of s cs] calls_index [of cs s] addToHistory_evicts [of s a d t]
      historyIndex_addToHistory [of a d t s]
    by blast
qed

theorem addToHistory_capacity_witness:
  "length (history full_history) = 50
   \<and> historyIndex full_history = 49
   \<and> [(''a'', NoData, 7)] \<noteq> []
   \<and> length (history (addToHistory ''a'' NoData 7 full_history)) = 50
   \<and> historyIndex (addToHistory ''a'' NoData 7 full_history) = 49
   \<and> last (history (addToHistory ''a'' NoData 7 full_history)) =
        \<lparr>action = ''a'', data = NoData, timestamp = 7,
         state = \<lparr>snap_selectedFields = 4, snap_filters = 5, snap_groups = 6,
                  snap_sorts = 7\<rparr>\<rparr>
   \<and> length (history (addToHistory_calls (replicate 51 (''a'', NoData, 7)) setup_widget)) = 50"
  using addToHistory_capacity [of full_history "[(''a'', NoData, 7)]" "''a''" NoData 7]
        addToHistory_capacity [of setup_widget "replicate 51 (''a'', NoData, 7)"]
  by (simp add: full_history_def deepCopy_def setup_widget_def Let_def)

section \<open>Projections of the operations\<close>

lemma fields_of_set_fields: "fields_of (set_fields fs s) = fs"
  by (simp add: fields_of_def set_fields_def)

lemma set_fields_proj:
  "selectedFields (set_fields fs s) = selectedFields s"
  "fieldArrs (heap (set_fields fs s)) = (fieldArrs (heap s))(selectedFields s := fs)"
  "nextRef (heap (set_fields fs s)) = nextRef (heap s)"
  "history (set_fields fs s) = history s"
  "historyIndex (set_fields fs s) = historyIndex s"
  by (simp_all add: set_fields_def)

lemma notify_proj:
  "selectedFields (notify ty st m s) = selectedFields s"
  "heap (notify ty st m s) = heap s"
  "history (notify ty st m s) = history s"
  "historyIndex (notify ty st m s) = historyIndex s"
  "fields_of (notify ty st m s) = fields_of s"
  by (simp_all add: notify_def fields_of_def)

lemma addToHistory_proj:
  "selectedFields (addToHistory a d t s) = selectedFields s"
  "fieldArrs (heap (addToHistory a d t s)) = (fieldArrs (heap s))(nextRef (heap s) := fields_of s)"
  "nextRef (heap (addToHistory a d t s)) = nextRef (heap s) + 4"
  "fst (deepCopy s) = snap_at (nextRef (heap s))"
  by (simp_all add: addToHistory_def deepCopy_def Let_def snap_at_def)

lemma restoreState_proj:
  "selectedFields (restoreState sn s) = snap_selectedFields sn"
  "heap (restoreState sn s) = heap s"
  "history (restoreState sn s) = history s"
  "historyIndex (restoreState sn s) = historyIndex s"
  by (simp_all add: restoreState_def)

lemmas proj = set_fields_proj notify_proj addToHistory_proj restoreState_proj
  showSuccess_def showInfo_def showWarning_def

lemma fields_of_addToHistory: "fields_of (addToHistory a d t s) = fields_of s"
  by (simp add: addToHistory_def deepCopy_def Let_def fields_of_def)

lemma find_None_names: "(find (\<lambda>f. name f = n) fs = None) = (n \<notin> set (map name fs))"
  by (auto simp: find_None_iff)

lemma fields_of_addField:
  "fields_of (addField fd s) =
     (if d_name fd \<in> set (map name (fields_of s)) then fields_of s
      else fields_of s @ [new_spec fd (int (length (fields_of s)) + 1)])"
  by (simp add: addField_def find_None_names showSuccess_def showWarning_def fields_of_set_fields
      notify_proj new_spec_def del: set_map)

lemma duplicateField_found:
  "find (\<lambda>f. name f = n) (fields_of s) = Some orig \<Longrightarrow>
   duplicateField n t s =
     showSuccess (T FieldDuplicated)
       (addToHistory ''duplicate_field'' (DataField n) t
          (set_fields (fields_of s @
             [orig\<lparr>label := label orig @ copy_suffix,
                   sequence := int (length (fields_of s)) + 1\<rparr>]) s))"
  by (simp add: duplicateField_def Let_def)

lemma undo_moves:
  "history_ok s \<Longrightarrow> 0 < historyIndex s \<Longrightarrow>
   after (undo s) =
     showInfo (T ActionUndone)
       (restoreState (state (history s ! nat (historyIndex s - 1)))
          (s\<lparr>historyIndex := historyIndex s - 1\<rparr>))"
  by (simp add: undo_def history_ok_def at_index_def Let_def after_def)

section \<open>The example session, step by step\<close>

lemma one_field_facts:
  "selectedFields one_field = 0" "fieldArrs (heap one_field) 0 = [nm]"
  "nextRef (heap one_field) = 4" "history one_field = []" "historyIndex one_field = - 1"
  by (simp_all add: one_field_def partner_loaded_def setup_widget_def addField_def fields_of_def
      proj nm_def new_spec_def fd_name_def)

lemma fields_one_field: "fields_of one_field = [nm]"
  by (simp add: fields_of_def one_field_facts)

lemma logged1_facts:
  "selectedFields logged1 = 0" "fieldArrs (heap logged1) 0 = [nm]"
  "fieldArrs (heap logged1) 4 = [nm]"
  "nextRef (heap logged1) = 8"
  "history logged1 = [\<lparr>action = ''first'', data = NoData, timestamp = 1, state = snap_at 4\<rparr>]"
  "historyIndex logged1 = 0"
  by (simp_all add: logged1_def proj one_field_facts fields_of_def history_addToHistory
      historyIndex_addToHistory kept_history_def Let_def)

lemma find_nm: "find (\<lambda>f. name f = ''name'') [nm] = Some nm"
  by (simp add: nm_def new_spec_def fd_name_def)

lemma logged2_facts:
  "selectedFields logged2 = 0" "fieldArrs (heap logged2) 0 = [nm, cp]"
  "fieldArrs (heap logged2) 4 = [nm]"
  "nextRef (heap logged2) = 12"
  "history logged2 =
     [\<lparr>action = ''first'', data = NoData, timestamp = 1, state = snap_at 4\<rparr>,
      \<lparr>action = ''duplicate_field'', data = DataField ''name'', timestamp = 2,
       state = snap_at 8\<rparr>]"
  "historyIndex logged2 = 1"
proof -
  have f: "fields_of logged1 = [nm]" by (simp add: fields_of_def logged1_facts)
  have d: "logged2 = showSuccess (T FieldDuplicated)
       (addToHistory ''duplicate_field'' (DataField ''name'') 2 (set_fields [nm, cp] logged1))"
    unfolding logged2_def
    using duplicateField_found [of "''name''" logged1 nm 2] find_nm by (simp add: f cp_def)
  show "selectedFields logged2 = 0" "fieldArrs (heap logged2) 0 = [nm, cp]"
    "fieldArrs (heap logged2) 4 = [nm]"
    "nextRef (heap logged2) = 12"
    "history logged2 =
       [\<lparr>action = ''first'', data = NoData, timestamp = 1, state = snap_at 4\<rparr>,
        \<lparr>action = ''duplicate_field'', data = DataField ''name'', timestamp = 2,
         state = snap_at 8\<rparr>]"
    "historyIndex logged2 = 1"
    by (simp_all add: d proj logged1_facts fields_of_def history_addToHistory
        historyIndex_addToHistory kept_history_def Let_def)
qed

lemma undone_facts:
  "selectedFields undone = 4" "fieldArrs (heap undone) 4 = [nm]"
  "nextRef (heap undone) = 12"
  "history undone =
     [\<lparr>action = ''first'', data = NoData, timestamp = 1, state = snap_at 4\<rparr>,
      \<lparr>action = ''duplicate_field'', data = DataField ''name'', timestamp = 2,
       state = snap_at 8\<rparr>]"
  "historyIndex undone = 0"
proof -
  have ok: "history_ok logged2" "0 < historyIndex logged2"
    by (simp_all add: history_ok_def logged2_facts)
  show "selectedFields undone = 4" "fieldArrs (heap undone) 4 = [nm]"
    "nextRef (heap undone) = 12"
    "history undone =
       [\<lparr>action = ''first'', data = NoData, timestamp = 1, state = snap_at 4\<rparr>,
        \<lparr>action = ''duplicate_field'', data = DataField ''name'', timestamp = 2,
         state = snap_at 8\<rparr>]"
    "historyIndex undone = 0"
    unfolding undone_def undo_moves [OF ok]
    by (simp_all add: proj logged2_facts snap_at_def)
qed

lemma again_facts:
  "selectedFields again = 4" "fieldArrs (heap again) 4 = [nm, cp]"
  "history again =
     [\<lparr>action = ''first'', data = NoData, timestamp = 1, state = snap_at 4\<rparr>,
      \<lparr>action = ''duplicate_field'', data = DataField ''name'', timestamp = 3,
       state = snap_at 12\<rparr>]"
  "historyIndex again = 1"
proof -
  have f: "fields_of undone = [nm]" by (simp add: fields_of_def undone_facts)
  have d: "again = showSuccess (T FieldDuplicated)
       (addToHistory ''duplicate_field'' (DataField ''name'') 3 (set_fields [nm, cp] undone))"
    unfolding again_def
    using duplicateField_found [of "''name''" undone nm 3] find_nm by (simp add: f cp_def)
  show "selectedFields again = 4" "fieldArrs (heap again) 4 = [nm, cp]"
    "history again =
       [\<lparr>action = ''first'', data = NoData, timestamp = 1, state = snap_at 4\<rparr>,
        \<lparr>action = ''duplicate_field'', data = DataField ''name'', timestamp = 3,
         state = snap_at 12\<rparr>]"
    "historyIndex again = 1"
    by (simp_all add: d proj undone_facts fields_of_def history_addToHistory
        historyIndex_addToHistory kept_history_def slice0_def Let_def)
qed

lemma undone_again_facts:
  "fields_of undone_again = [nm, cp]" "historyIndex undone_again = 0"
proof -
  have ok: "history_ok again" "0 < historyIndex again"
    by (simp_all add: history_ok_def again_facts)
  show "fields_of undone_again = [nm, cp]" "historyIndex undone_again = 0"
    unfolding undone_again_def undo_moves [OF ok]
    by (simp_all add: proj again_facts snap_at_def fields_of_def)
qed

section \<open>Undo after a logged action\<close>

text \<open>
  Claim C1, evaluated on the session above. In the state \<open>undone\<close> the log has two
  entries, the cursor is on the first, and the snapshot under the cursor has the contents
  of the live collection, the single field \<open>nm\<close>. The logged action
  \<open>duplicateField('name')\<close> makes the live collection \<open>[nm, cp]\<close>. The call of
  \<open>undo()\<close> that follows leaves \<open>[nm, cp]\<close>, not the value \<open>[nm]\<close> from before the
  action: the live array was the array of the snapshot, so the action changed the snapshot
  that undo then restored.
\<close>

theorem undo_after_action_restores_changed_snapshot:
  "length (history undone) = 2
   \<and> history_ok undone
   \<and> snap_fields undone (state (history undone ! nat (historyIndex undone))) = fields_of undone
   \<and> fields_of undone = [nm]
   \<and> again = duplicateField ''name'' 3 undone
   \<and> fields_of again = [nm, cp]
   \<and> fields_of (after (undo again)) = [nm, cp]
   \<and> fields_of (after (undo again)) \<noteq> fields_of undone"
  using undone_again_facts(1)
  by (simp add: undone_facts again_facts history_ok_def snap_fields_def fields_of_def snap_at_def
      again_def [symmetric] undone_again_def [symmetric])


section \<open>Snapshots and the live state\<close>

lemma addField_email_undone:
  "addField fd_email undone =
     showSuccess (Cat (T FieldAdded) (S ''Email'')) (set_fields [nm, new_spec fd_email 2] undone)"
proof -
  have f: "fields_of undone = [nm]" by (simp add: fields_of_def undone_facts)
  show ?thesis
    by (simp add: addField_def f nm_def new_spec_def fd_email_def fd_name_def)
qed

text \<open>
  Claim C3, evaluated on the session above. In the state \<open>undone\<close>, reached by
  \<open>undo()\<close>, the snapshot of the first history entry holds the single field \<open>nm\<close>.
  Adding the field \<open>email\<close> to the live collection leaves the log as it is and changes
  the contents of that stored snapshot to two fields: \<open>restoreState\<close> made the live
  array and the array of the snapshot the same object.
\<close>

theorem snapshot_changed_by_live_mutation:
  "snap_fields undone (state (history undone ! 0)) = [nm]
   \<and> history (addField fd_email undone) = history undone
   \<and> snap_fields (addField fd_email undone) (state (history undone ! 0))
       = [nm, new_spec fd_email 2]"
  by (simp add: addField_email_undone snap_fields_def proj undone_facts snap_at_def)

section \<open>Bulk add\<close>

lemma fields_forEach_push:
  "fields_of (forEach_push chosen i s) =
     fields_of s @
     map (\<lambda>(k, fd). new_spec fd (int (length (fields_of s)) + int i + 2 * int k + 1))
       (enumerate 0 chosen)"
proof (induction chosen arbitrary: i s)
  case Nil
  then show ?case by simp
next
  case (Cons fd rest)
  let ?s1 = "set_fields (fields_of s @ [new_spec fd (int (length (fields_of s)) + int i + 1)]) s"
  have step: "forEach_push (fd # rest) i s = forEach_push rest (Suc i) ?s1"
    by (simp add: new_spec_def)
  have f1: "fields_of ?s1 = fields_of s @ [new_spec fd (int (length (fields_of s)) + int i + 1)]"
    by (simp add: fields_of_set_fields)
  have e: "enumerate 0 (fd # rest) = (0, fd) # map (apfst Suc) (enumerate 0 rest)"
    by (simp add: enumerate_Suc_eq)
  show ?case
    unfolding step Cons.IH [of "Suc i" ?s1] f1 e
    by (simp add: comp_def case_prod_beta algebra_simps)
qed

text \<open>
  What the confirmation appends in general: the field at position \<open>k\<close> of the choice
  (counted from 0) gets the sequence \<open>L + 2 k + 1\<close>, where \<open>L\<close> is the length before.
\<close>

lemma fields_onConfirm:
  "fields_of (onConfirm chosen now s) =
     fields_of s @
     map (\<lambda>(k, fd). new_spec fd (int (length (fields_of s)) + 2 * int k + 1))
       (enumerate 0 chosen)"
  by (simp add: onConfirm_def Let_def showSuccess_def notify_proj fields_of_addToHistory
      fields_forEach_push)

lemma history_onConfirm:
  "history (onConfirm chosen now s) =
     history (addToHistory ''bulk_add_fields'' (DataCount (length chosen)) now
                (forEach_push chosen 0 s))"
  by (simp add: onConfirm_def Let_def showSuccess_def notify_proj)

text \<open>
  Claim C8, evaluated at one selected field (\<open>L = 1\<close>) and a choice of two fields. Two
  field objects are appended, with the guessed format type and aggregation \<open>'none'\<close>; the
  first gets sequence 2, and the second gets sequence 4, where the claim says
  \<open>L + 2 = 3\<close>.
\<close>

theorem onConfirm_sequence_skips:
  "length (fields_of one_field) = 1
   \<and> fields_of (onConfirm [fd_email, fd_total] 10 one_field)
       = fields_of one_field @ [new_spec fd_email 2, new_spec fd_total 4]
   \<and> sequence (fields_of (onConfirm [fd_email, fd_total] 10 one_field) ! 2) = 4"
  by (simp add: fields_onConfirm fields_one_field new_spec_def)

section \<open>A failed change of model\<close>

lemma one_field_model:
  "selectedModel one_field = Some partner"
  "availableModels one_field = [partner, sale_order]"
  "availableFields one_field = [fd_name, fd_email, fd_total]"
  by (simp_all add: one_field_def partner_loaded_def addField_def showSuccess_def showWarning_def
     notify_def set_fields_def)

text \<open>
  Claim C9, evaluated at a state where the model "Contact" is selected with its fields
  loaded and one field chosen. \<open>onModelChange\<close> is called for the model "Sales Order"
  and the request for its fields is rejected. The error is shown, \<open>loading\<close> is cleared,
  the available fields and the selected fields are those of "Contact" still, but
  \<open>selectedModel\<close> is now "Sales Order": it was assigned before the request was sent.
\<close>

theorem onModelChange_failure_changes_selectedModel:
  "selectedModel one_field = Some partner
   \<and> selectedModel (onModelChange (Some 2) (Rejected ''timeout'') one_field) = Some sale_order
   \<and> availableFields (onModelChange (Some 2) (Rejected ''timeout'') one_field)
       = [fd_name, fd_email, fd_total]
   \<and> fields_of (onModelChange (Some 2) (Rejected ''timeout'') one_field) = [nm]
   \<and> loading (onModelChange (Some 2) (Rejected ''timeout'') one_field) = False"
  by (simp add: onModelChange_def falsy_id_def one_field_model partner_def sale_order_def
      showError_def notify_def fields_of_def one_field_facts)


section \<open>Cached execution\<close>

lemma generateCacheKey_cong:
  assumes "selectedModel s1 = selectedModel s2"
    and "map name (fields_of s1) = map name (fields_of s2)"
    and "prepareFilters s1 = prepareFilters s2"
    and "filter (\<lambda>x. s_field x \<noteq> []) (sorts_of s1) = filter (\<lambda>x. s_field x \<noteq> []) (sorts_of s2)"
    and "filter (\<lambda>g. g_field g \<noteq> []) (groups_of s1) = filter (\<lambda>g. g_field g \<noteq> []) (groups_of s2)"
  shows "generateCacheKey s1 = generateCacheKey s2"
proof -
  have "map (\<lambda>f. JStr (name f)) (fields_of s1) = map JStr (map name (fields_of s1))" by simp
  also have "\<dots> = map JStr (map name (fields_of s2))" using assms(2) by simp
  also have "\<dots> = map (\<lambda>f. JStr (name f)) (fields_of s2)" by simp
  finally show ?thesis using assms(1,3,4,5) by (simp add: generateCacheKey_def)
qed

lemma executeWithCache_hit:
  assumes "cachedResults s (generateCacheKey s) = Some cached"
  shows "executeWithCache t0 t1 orm rpc s =
           showInfo (T LoadedFromCache)
             (s\<lparr>reportData := cached,
                reportCount := (case cached of DRows rs \<Rightarrow> int (length rs) | _ \<Rightarrow> 0)\<rparr>)"
  using assms by (simp add: executeWithCache_def Let_def)

text \<open>
  Claim C5. Two states with the same selected model, the same names of selected fields,
  the same prepared filters, the same sorts with a field and the same groups with a field
  have the same cache key. When the key of a state is in the cache, \<open>executeWithCache\<close>
  sets \<open>reportData\<close> to the cached value and \<open>reportCount\<close> to its length (0 when it
  is not an array), shows one information message and changes nothing else: no request
  is sent, whatever the replies would have been.
\<close>

theorem cache_key_deterministic_and_hit_skips_execution:
  "(selectedModel s1 = selectedModel s2
    \<and> map name (fields_of s1) = map name (fields_of s2)
    \<and> prepareFilters s1 = prepareFilters s2
    \<and> filter (\<lambda>x. s_field x \<noteq> []) (sorts_of s1) = filter (\<lambda>x. s_field x \<noteq> []) (sorts_of s2)
    \<and> filter (\<lambda>g. g_field g \<noteq> []) (groups_of s1) = filter (\<lambda>g. g_field g \<noteq> []) (groups_of s2)
    \<longrightarrow> generateCacheKey s1 = generateCacheKey s2)
   \<and> (cachedResults s (generateCacheKey s) = Some cached \<longrightarrow>
        executeWithCache t0 t1 orm rpc s
          = s\<lparr>reportData := cached,
              reportCount := (case cached of DRows rs \<Rightarrow> int (length rs) | _ \<Rightarrow> 0),
              notifications := notifications s @
                [\<lparr>n_type = Info, sticky = False, n_message = T LoadedFromCache\<rparr>]\<rparr>
        \<and> reportData (executeWithCache t0 t1 orm rpc s) = cached
        \<and> requests (executeWithCache t0 t1 orm rpc s) = requests s)"
  using generateCacheKey_cong [of s1 s2]
  by (auto simp add: executeWithCache_hit showInfo_def notify_def)

lemma one_field_rest:
  "filterArrs (heap one_field) (filters one_field) = []"
  "sortArrs (heap one_field) (sorts one_field) = []"
  "groupArrs (heap one_field) (groups one_field) = []"
  "previewMode one_field = False" "requests one_field = []"
  "cachedResults one_field = Map.empty" "reportData one_field = DNull"
  by (simp_all add: one_field_def partner_loaded_def setup_widget_def addField_def fields_of_def
      set_fields_def showSuccess_def showWarning_def notify_def)

lemma validate_one_field: "validateReportSettings one_field = (True, one_field\<lparr>errors := []\<rparr>)"
  by (simp add: validateReportSettings_def Let_def fields_of_def one_field_facts one_field_model
      invalidFilters_def filters_of_def one_field_rest)

text \<open>When the key is not in the cache, the report is executed: two requests are sent.\<close>

lemma executeReport_one_field:
  "executeReport (Resolved 9) (Resolved ok_result) one_field =
     (showSuccess (S ''done'')
        (one_field\<lparr>loading := True, errors := [],
           requests := [CreateReport 1, ExecuteReport 9 [] None],
           reportData := rows1, reportCount := 2\<rparr>))\<lparr>currentStep := 4, loading := False\<rparr>"
  by (simp add: executeReport_def validate_one_field one_field_model one_field_rest Let_def
      prepareFilters_def ok_result_def partner_def filters_of_def)

lemma first_run_facts:
  "requests first_run = [CreateReport 1, ExecuteReport 9 [] None]"
  "cachedResults first_run = [generateCacheKey one_field \<mapsto> rows1]"
  "selectedModel first_run = Some partner"
  "fields_of first_run = [nm]" "filters_of first_run = []"
  "sorts_of first_run = []" "groups_of first_run = []"
  by (simp_all add: first_run_def executeWithCache_def Let_def one_field_rest
      executeReport_one_field showSuccess_def notify_def rows1_def updateExecutionStats_def
      one_field_model fields_of_def filters_of_def sorts_of_def groups_of_def one_field_facts)

theorem cache_key_deterministic_and_hit_skips_execution_witness:
  "generateCacheKey one_field = generateCacheKey first_run
   \<and> cachedResults first_run (generateCacheKey first_run) = Some rows1
   \<and> reportData (executeWithCache 300 301 (Rejected ''x'') (Rejected ''y'') first_run) = rows1
   \<and> reportCount (executeWithCache 300 301 (Rejected ''x'') (Rejected ''y'') first_run) = 2
   \<and> requests (executeWithCache 300 301 (Rejected ''x'') (Rejected ''y'') first_run)
       = [CreateReport 1, ExecuteReport 9 [] None]"
proof -
  have same: "selectedModel one_field = selectedModel first_run
    \<and> map name (fields_of one_field) = map name (fields_of first_run)
    \<and> prepareFilters one_field = prepareFilters first_run
    \<and> filter (\<lambda>x. s_field x \<noteq> []) (sorts_of one_field)
        = filter (\<lambda>x. s_field x \<noteq> []) (sorts_of first_run)
    \<and> filter (\<lambda>g. g_field g \<noteq> []) (groups_of one_field)
        = filter (\<lambda>g. g_field g \<noteq> []) (groups_of first_run)"
    by (simp add: first_run_facts one_field_model fields_one_field prepareFilters_def
        filters_of_def sorts_of_def groups_of_def one_field_rest
        first_run_facts(5-7) [unfolded filters_of_def sorts_of_def groups_of_def])
  have key: "generateCacheKey one_field = generateCacheKey first_run"
    using cache_key_deterministic_and_hit_skips_execution
            [of one_field first_run first_run rows1 300 301 "Rejected ''x''" "Rejected ''y''"] same
    by blast
  have hit: "cachedResults first_run (generateCacheKey first_run) = Some rows1"
    by (simp add: first_run_facts key [symmetric])
  show ?thesis
    using cache_key_deterministic_and_hit_skips_execution
            [of one_field first_run first_run rows1 300 301 "Rejected ''x''" "Rejected ''y''"]
          key hit
    by (simp add: first_run_facts rows1_def)
qed


section \<open>Moving a field\<close>

lemma findIndex_range:
  "findIndex P xs = - 1 \<or>
   (0 \<le> findIndex P xs \<and> findIndex P xs < int (length xs) \<and> P (xs ! nat (findIndex P xs)))"
proof (induction xs)
  case Nil then show ?case by simp
next
  case (Cons x xs)
  show ?case
  proof (cases "P x")
    case True then show ?thesis by simp
  next
    case False
    with Cons show ?thesis by (auto simp: Let_def nat_add_distrib)
  qed
qed

lemma length_renumber: "length (renumber fs) = length fs"
  by (simp add: renumber_def)

lemma nth_renumber: "k < length fs \<Longrightarrow> renumber fs ! k = (fs ! k)\<lparr>sequence := int k + 1\<rparr>"
  by (simp add: renumber_def nth_enumerate_eq)

lemma moveField_swap:
  assumes i: "findIndex (\<lambda>f. name f = n) (fields_of s) = i" "i \<noteq> - 1"
    and j: "j = (if dir = ''up'' then i - 1 else i + 1)" "0 \<le> j" "j < int (length (fields_of s))"
  shows "moveField n dir s =
           set_fields (renumber ((fields_of s)[nat i := fields_of s ! nat j,
                                              nat j := fields_of s ! nat i])) s"
proof (cases "dir = ''up''")
  case True
  with assms show ?thesis by (simp add: moveField_def Let_def)
next
  case False
  with assms show ?thesis by (simp add: moveField_def Let_def)
qed

lemma moveField_noop:
  assumes "findIndex (\<lambda>f. name f = n) (fields_of s) = i"
    and "i = - 1 \<or> (i = 0 \<and> dir = ''up'')
         \<or> (i = int (length (fields_of s)) - 1 \<and> dir \<noteq> ''up'')"
  shows "moveField n dir s = s"
  using assms by (auto simp add: moveField_def Let_def)

text \<open>
  Claim C7. \<open>moveField(name, direction)\<close> returns the state unchanged when no field has
  the name, when the field is the first one and the direction is \<open>'up'\<close>, and when it is
  the last one and the direction is not \<open>'up'\<close>. In every other case the named field is
  at an index \<open>i\<close>, its neighbour at \<open>j\<close> is inside the array, only the live array
  changes, its length stays, and position \<open>k\<close> holds afterwards the field that was at
  \<open>k\<close>, with \<open>i\<close> and \<open>j\<close> exchanged, carrying the sequence \<open>k + 1\<close>.
\<close>

theorem moveField_spec:
  "let fields = fields_of s;
       i = findIndex (\<lambda>f. name f = n) fields;
       j = (if dir = ''up'' then i - 1 else i + 1);
       s' = moveField n dir s
   in (i = - 1 \<longrightarrow> s' = s)
    \<and> (i = 0 \<and> dir = ''up'' \<longrightarrow> s' = s)
    \<and> (i = int (length fields) - 1 \<and> dir \<noteq> ''up'' \<longrightarrow> s' = s)
    \<and> (i \<noteq> - 1 \<and> \<not> (i = 0 \<and> dir = ''up'')
         \<and> \<not> (i = int (length fields) - 1 \<and> dir \<noteq> ''up'') \<longrightarrow>
         0 \<le> i \<and> i < int (length fields) \<and> 0 \<le> j \<and> j < int (length fields)
         \<and> name (fields ! nat i) = n
         \<and> s' = set_fields (fields_of s') s
         \<and> length (fields_of s') = length fields
         \<and> (\<forall>k < length fields.
               fields_of s' ! k =
                 (fields ! (if k = nat i then nat j else if k = nat j then nat i else k))
                 \<lparr>sequence := int k + 1\<rparr>))"
proof -
  define fields where "fields = fields_of s"
  define i where "i = findIndex (\<lambda>f. name f = n) fields"
  define j where "j = (if dir = ''up'' then i - 1 else i + 1)"
  define s' where "s' = moveField n dir s"
  have noop: "i = - 1 \<or> (i = 0 \<and> dir = ''up'')
                \<or> (i = int (length fields) - 1 \<and> dir \<noteq> ''up'') \<Longrightarrow> s' = s"
    unfolding s'_def using moveField_noop [of n s i dir] by (simp add: i_def fields_def)
  have main: "0 \<le> i \<and> i < int (length fields) \<and> 0 \<le> j \<and> j < int (length fields)
         \<and> name (fields ! nat i) = n
         \<and> s' = set_fields (fields_of s') s
         \<and> length (fields_of s') = length fields
         \<and> (\<forall>k < length fields.
               fields_of s' ! k =
                 (fields ! (if k = nat i then nat j else if k = nat j then nat i else k))
                 \<lparr>sequence := int k + 1\<rparr>)"
    if h: "i \<noteq> - 1" "\<not> (i = 0 \<and> dir = ''up'')"
          "\<not> (i = int (length fields) - 1 \<and> dir \<noteq> ''up'')"
  proof -
    have r: "0 \<le> i \<and> i < int (length fields) \<and> name (fields ! nat i) = n"
      using findIndex_range [of "\<lambda>f. name f = n" fields] h(1) by (simp add: i_def)
    have jr: "0 \<le> j \<and> j < int (length fields)" using r h by (auto simp: j_def)
    have ij: "nat i \<noteq> nat j" using r jr by (auto simp: j_def)
    have eq: "s' = set_fields (renumber (fields[nat i := fields ! nat j,
                                               nat j := fields ! nat i])) s"
      unfolding s'_def fields_def
      using moveField_swap [of n s i j dir] h(1) jr by (simp add: i_def j_def fields_def)
    have f': "fields_of s' = renumber (fields[nat i := fields ! nat j, nat j := fields ! nat i])"
      by (simp add: eq fields_of_set_fields)
    have len: "length (fields_of s') = length fields" by (simp add: f' length_renumber)
    have nth: "fields_of s' ! k =
                 (fields ! (if k = nat i then nat j else if k = nat j then nat i else k))
                 \<lparr>sequence := int k + 1\<rparr>" if k: "k < length fields" for k
      using k r jr ij by (simp add: f' nth_renumber nth_list_update)
    show ?thesis using r jr eq f' len nth by simp
  qed
  show ?thesis
    unfolding Let_def fields_def [symmetric] i_def [symmetric] j_def [symmetric]
      s'_def [symmetric]
    using noop main by blast
qed

lemma fields_two_fields: "fields_of two_fields = [nm, new_spec fd_email 2]"
  by (simp add: two_fields_def fields_of_addField fields_one_field nm_def new_spec_def
      fd_name_def fd_email_def)

lemma findIndex_two_fields:
  "findIndex (\<lambda>f. name f = ''email'') (fields_of two_fields) = 1"
  "findIndex (\<lambda>f. name f = ''name'') (fields_of two_fields) = 0"
  "findIndex (\<lambda>f. name f = ''zip'') (fields_of two_fields) = - 1"
  by (simp_all add: fields_two_fields nm_def new_spec_def fd_name_def fd_email_def)

lemma all_less_two: "(\<forall>k<Suc (Suc 0). P k) = (P 0 \<and> P (Suc 0))"
  by (auto simp: less_Suc_eq)

theorem moveField_spec_witness:
  "findIndex (\<lambda>f. name f = ''email'') (fields_of two_fields) = 1
   \<and> fields_of (moveField ''email'' ''up'' two_fields)
       = [(new_spec fd_email 2)\<lparr>sequence := 1\<rparr>, nm\<lparr>sequence := 2\<rparr>]
   \<and> moveField ''name'' ''up'' two_fields = two_fields
   \<and> moveField ''email'' ''down'' two_fields = two_fields
   \<and> moveField ''zip'' ''up'' two_fields = two_fields"
proof -
  note up = moveField_spec [of two_fields "''email''" "''up''",
      unfolded Let_def findIndex_two_fields]
  note first_up = moveField_spec [of two_fields "''name''" "''up''",
      unfolded Let_def findIndex_two_fields]
  note last_down = moveField_spec [of two_fields "''email''" "''down''",
      unfolded Let_def findIndex_two_fields]
  note absent = moveField_spec [of two_fields "''zip''" "''up''",
      unfolded Let_def findIndex_two_fields]
  have u: "length (fields_of (moveField ''email'' ''up'' two_fields)) = 2
    \<and> fields_of (moveField ''email'' ''up'' two_fields) ! 0
        = (new_spec fd_email 2)\<lparr>sequence := 1\<rparr>
    \<and> fields_of (moveField ''email'' ''up'' two_fields) ! Suc 0 = nm\<lparr>sequence := 2\<rparr>"
    using up by (simp add: fields_two_fields all_less_two)
  have l: "fields_of (moveField ''email'' ''up'' two_fields)
       = [(new_spec fd_email 2)\<lparr>sequence := 1\<rparr>, nm\<lparr>sequence := 2\<rparr>]"
    using u by (auto simp: list_eq_iff_nth_eq less_Suc_eq numeral_2_eq_2)
  show ?thesis
    using l first_up last_down absent findIndex_two_fields(1)
    by (simp add: fields_two_fields del: findIndex.simps)
qed


section \<open>What undo and redo leave alone\<close>

lemma same_elsewhere_log:
  assumes "same_elsewhere s s'"
  shows "history s' = history s" "heap s' = heap s"
proof -
  let ?r = "s'\<lparr>historyIndex := historyIndex s, selectedFields := selectedFields s,
         filters := filters s, groups := groups s, sorts := sorts s,
         notifications := notifications s\<rparr>"
  have eq: "?r = s" using assms by (simp add: same_elsewhere_def)
  have "history ?r = history s'" "heap ?r = heap s'" by simp_all
  then show "history s' = history s" "heap s' = heap s" using eq by simp_all
qed

lemma undo_frame:
  assumes "history_ok s"
  shows "\<exists>s'. undo s = Inr s' \<and> same_elsewhere s s'
           \<and> (if historyIndex s > 0 then moved_to s (historyIndex s - 1) s' else stayed s s')"
  using assms
  by (simp add: undo_def history_ok_def at_index_def Let_def showInfo_def showWarning_def
      notify_def restoreState_def same_elsewhere_def moved_to_def stayed_def)

lemma redo_frame:
  assumes "history_ok s"
  shows "\<exists>s'. redo s = Inr s' \<and> same_elsewhere s s'
           \<and> (if historyIndex s < int (length (history s)) - 1
               then moved_to s (historyIndex s + 1) s' else stayed s s')"
  using assms
  by (simp add: redo_def history_ok_def at_index_def Let_def showInfo_def showWarning_def
      notify_def restoreState_def same_elsewhere_def moved_to_def stayed_def)

text \<open>The cursor stays in range: initially, and after each of the three operations.\<close>

lemma history_ok_setup: "history_ok setup_widget"
  by (simp add: history_ok_def setup_widget_def)

lemma history_ok_addToHistory: "history_ok (addToHistory a d t s)"
proof -
  have "history (addToHistory a d t s) \<noteq> []"
    by (cases "kept_history s") (auto simp add: history_addToHistory Let_def)
  then show ?thesis by (simp add: history_ok_def historyIndex_addToHistory)
qed

lemma history_ok_undo: "history_ok s \<Longrightarrow> history_ok (after (undo s))"
  by (simp add: undo_def history_ok_def at_index_def Let_def showInfo_def showWarning_def
      notify_def restoreState_def after_def)

lemma history_ok_redo: "history_ok s \<Longrightarrow> history_ok (after (redo s))"
  by (simp add: redo_def history_ok_def at_index_def Let_def showInfo_def showWarning_def
      notify_def restoreState_def after_def)

text \<open>
  Claim C10. In a state whose cursor is in range, \<open>undo()\<close> and \<open>redo()\<close> return
  normally and leave the log and the store as they are, so the length of the history
  and the contents of every stored entry are unchanged; apart from the notification shown
  they change nothing but the cursor and the four collections. \<open>undo()\<close> moves the cursor
  one position back when it is above 0 and \<open>redo()\<close> one position forward when it is
  below the last index; the target is then an entry of the log and the four collections
  become the arrays of that entry. Otherwise the cursor and the collections stay.
\<close>

theorem undo_redo_frame:
  assumes "history_ok s"
  shows "\<exists>u r. undo s = Inr u \<and> redo s = Inr r
     \<and> history u = history s \<and> heap u = heap s \<and> same_elsewhere s u
     \<and> (if 0 < historyIndex s then moved_to s (historyIndex s - 1) u else stayed s u)
     \<and> history r = history s \<and> heap r = heap s \<and> same_elsewhere s r
     \<and> (if historyIndex s < int (length (history s)) - 1
         then moved_to s (historyIndex s + 1) r else stayed s r)"
proof -
  obtain u where u: "undo s = Inr u" "same_elsewhere s u"
    "if historyIndex s > 0 then moved_to s (historyIndex s - 1) u else stayed s u"
    using undo_frame [OF assms] by blast
  obtain r where r: "redo s = Inr r" "same_elsewhere s r"
    "if historyIndex s < int (length (history s)) - 1
       then moved_to s (historyIndex s + 1) r else stayed s r"
    using redo_frame [OF assms] by blast
  show ?thesis
    using u r same_elsewhere_log [OF u(2)] same_elsewhere_log [OF r(2)] by blast
qed

lemma history_ok_logged2: "history_ok logged2"
  by (simp add: history_ok_def logged2_facts)

theorem undo_redo_frame_witness:
  "history_ok logged2 \<and>
   (\<exists>u r. undo logged2 = Inr u \<and> redo logged2 = Inr r
      \<and> history u = history logged2 \<and> heap u = heap logged2
      \<and> historyIndex u = 0 \<and> selectedFields u = 4
      \<and> history r = history logged2 \<and> heap r = heap logged2
      \<and> historyIndex r = 1 \<and> selectedFields r = 0)"
proof -
  obtain u r where ur: "undo logged2 = Inr u" "redo logged2 = Inr r"
      "history u = history logged2" "heap u = heap logged2"
      "moved_to logged2 0 u"
      "history r = history logged2" "heap r = heap logged2"
      "stayed logged2 r"
    using undo_redo_frame [OF history_ok_logged2] by (auto simp add: logged2_facts)
  have "historyIndex u = 0 \<and> selectedFields u = 4"
    using ur(5) by (simp add: moved_to_def logged2_facts snap_at_def)
  moreover have "historyIndex r = 1 \<and> selectedFields r = 0"
    using ur(8) by (simp add: stayed_def logged2_facts)
  ultimately show ?thesis using history_ok_logged2 ur by blast
qed

section \<open>Unique field names\<close>

lemma names_forEach_push:
  "map name (fields_of (forEach_push chosen i s)) = map name (fields_of s) @ map d_name chosen"
  by (induction chosen arbitrary: i s) (simp_all add: fields_of_set_fields)

lemma names_onConfirm:
  "map name (fields_of (onConfirm chosen now s)) = map name (fields_of s) @ map d_name chosen"
  by (simp add: onConfirm_def Let_def showSuccess_def notify_proj fields_of_addToHistory
      names_forEach_push)

lemma bulkCandidates_fresh:
  "fd \<in> set (bulkCandidates s) \<Longrightarrow> f \<in> set (fields_of s) \<Longrightarrow> name f \<noteq> d_name fd"
  by (auto simp add: bulkCandidates_def find_None_iff)

lemma names_duplicateField:
  "n \<in> set (map name (fields_of s)) \<Longrightarrow>
   map name (fields_of (duplicateField n now s)) = map name (fields_of s) @ [n]"
proof -
  assume n: "n \<in> set (map name (fields_of s))"
  then obtain orig where o: "find (\<lambda>f. name f = n) (fields_of s) = Some orig"
    using find_None_names [of n "fields_of s"]
    by (cases "find (\<lambda>f. name f = n) (fields_of s)") auto
  then have "name orig = n" by (auto simp: find_Some_iff)
  then show ?thesis
    by (simp add: duplicateField_def o Let_def showSuccess_def notify_proj
        fields_of_addToHistory fields_of_set_fields)
qed

text \<open>
  Claim C4, as the code has it. One selected field, duplicated: the name occurs twice.
\<close>

theorem duplicateField_repeats_name:
  "distinct (map name (fields_of one_field))
   \<and> \<not> distinct (map name (fields_of (duplicateField ''name'' 2 one_field)))"
  by (simp add: names_duplicateField fields_one_field nm_def new_spec_def fd_name_def)

text \<open>
  Claim C4, amended. When the names of the selected fields are unique, they are unique
  after \<open>addField\<close>, which only warns and leaves the selected fields as they are when the
  name is present already; and they are unique after the confirmation of a bulk add whose
  chosen fields are among the candidates the dialog offered and carry no name twice.
  \<open>duplicateField\<close> on a name that is present appends a field of that same name.
\<close>

theorem unique_names_preserved:
  "distinct (map name (fields_of s)) \<longrightarrow>
     distinct (map name (fields_of (addField fd s)))
   \<and> (d_name fd \<in> set (map name (fields_of s)) \<longrightarrow>
        addField fd s = showWarning (T FieldAlreadyAdded) s
        \<and> fields_of (addField fd s) = fields_of s)
   \<and> (distinct (map d_name chosen) \<and> set chosen \<subseteq> set (bulkCandidates s) \<longrightarrow>
        distinct (map name (fields_of (onConfirm chosen now s))))
   \<and> (n \<in> set (map name (fields_of s)) \<longrightarrow>
        map name (fields_of (duplicateField n now s)) = map name (fields_of s) @ [n])"
proof
  assume d: "distinct (map name (fields_of s))"
  have 1: "distinct (map name (fields_of (addField fd s)))"
    using d by (simp add: fields_of_addField new_spec_def del: set_map)
  have 2: "d_name fd \<in> set (map name (fields_of s)) \<longrightarrow>
        addField fd s = showWarning (T FieldAlreadyAdded) s
        \<and> fields_of (addField fd s) = fields_of s"
    by (simp add: addField_def find_None_names showWarning_def notify_proj del: set_map)
  have 3: "distinct (map name (fields_of (onConfirm chosen now s)))"
    if "distinct (map d_name chosen) \<and> set chosen \<subseteq> set (bulkCandidates s)"
  proof -
    have "set (map name (fields_of s)) \<inter> set (map d_name chosen) = {}"
      using that bulkCandidates_fresh [of _ s] by fastforce
    then show ?thesis using d that by (simp add: names_onConfirm del: set_map)
  qed
  show "distinct (map name (fields_of (addField fd s)))
   \<and> (d_name fd \<in> set (map name (fields_of s)) \<longrightarrow>
        addField fd s = showWarning (T FieldAlreadyAdded) s
        \<and> fields_of (addField fd s) = fields_of s)
   \<and> (distinct (map d_name chosen) \<and> set chosen \<subseteq> set (bulkCandidates s) \<longrightarrow>
        distinct (map name (fields_of (onConfirm chosen now s))))
   \<and> (n \<in> set (map name (fields_of s)) \<longrightarrow>
        map name (fields_of (duplicateField n now s)) = map name (fields_of s) @ [n])"
    using 1 2 3 names_duplicateField [of n s now] by blast
qed

lemma bulkCandidates_one_field: "bulkCandidates one_field = [fd_email, fd_total]"
  by (simp add: bulkCandidates_def fields_one_field one_field_model nm_def new_spec_def
      fd_name_def fd_email_def fd_total_def)

theorem unique_names_preserved_witness:
  "distinct (map name (fields_of one_field))
   \<and> d_name fd_name \<in> set (map name (fields_of one_field))
   \<and> distinct (map d_name [fd_email, fd_total])
   \<and> set [fd_email, fd_total] \<subseteq> set (bulkCandidates one_field)
   \<and> ''name'' \<in> set (map name (fields_of one_field))
   \<and> distinct (map name (fields_of (addField fd_name one_field)))
   \<and> fields_of (addField fd_name one_field) = fields_of one_field
   \<and> distinct (map name (fields_of (onConfirm [fd_email, fd_total] 10 one_field)))
   \<and> map name (fields_of (duplicateField ''name'' 10 one_field))
       = map name (fields_of one_field) @ [''name'']"
proof -
  have h1: "distinct (map name (fields_of one_field))"
    by (simp add: fields_one_field)
  have h2: "d_name fd_name \<in> set (map name (fields_of one_field))"
    by (simp add: fields_one_field nm_def new_spec_def)
  have h3: "distinct (map d_name [fd_email, fd_total])"
    by (simp add: fd_email_def fd_total_def)
  have h4: "set [fd_email, fd_total] \<subseteq> set (bulkCandidates one_field)"
    by (simp add: bulkCandidates_one_field)
  have h5: "''name'' \<in> set (map name (fields_of one_field))"
    by (simp add: fields_one_field nm_def new_spec_def fd_name_def)
  show ?thesis
    using unique_names_preserved [of one_field fd_name "[fd_email, fd_total]" 10 "''name''"]
      h1 h2 h3 h4 h5
    by blast
qed

section \<open>Validation, at two states\<close>

theorem validateReportSettings_iff_witness:
  "\<not> (selectedModel one_field = None \<or> fields_of one_field = [] \<or>
        (\<exists>f \<in> set (filters_of one_field).
           active f \<and> field f \<noteq> [] \<and> value f = [] \<and> operator f \<noteq> ''!=''))
   \<and> fst (validateReportSettings one_field) = True
   \<and> errors (snd (validateReportSettings one_field)) = []
   \<and> (\<exists>f \<in> set (filters_of with_blank_filter).
           active f \<and> field f \<noteq> [] \<and> value f = [] \<and> operator f \<noteq> ''!='')
   \<and> fst (validateReportSettings with_blank_filter) = False
   \<and> errors (snd (validateReportSettings with_blank_filter)) \<noteq> []"
proof -
  have a: "selectedModel one_field \<noteq> None" by (simp add: one_field_model)
  have b: "filters_of one_field = []" by (simp add: filters_of_def one_field_rest)
  have c: "filters_of with_blank_filter = [blank_filter]"
    by (simp add: with_blank_filter_def filters_of_def)
  have d: "active blank_filter \<and> field blank_filter \<noteq> [] \<and> value blank_filter = []
           \<and> operator blank_filter \<noteq> ''!=''"
    by (simp add: blank_filter_def)
  show ?thesis
    using validateReportSettings_iff [of one_field]
      validateReportSettings_iff [of with_blank_filter] a b c d fields_one_field
    by simp
qed


section \<open>Undo and redo when the live arrays are not shared\<close>

lemma kept_history_take:
  "history_ok s \<Longrightarrow> 0 \<le> historyIndex s \<Longrightarrow>
   kept_history s = take (nat (historyIndex s) + 1) (history s)"
  by (auto simp add: kept_history_def slice0_def history_ok_def Let_def nat_add_distrib min_def)

lemma addToHistory_entries:
  fixes a d t s
  assumes ok: "history_ok s" and pos: "0 \<le> historyIndex s"
  defines "s' \<equiv> addToHistory a d t s"
  shows "0 < historyIndex s'"
    and "history s' ! nat (historyIndex s' - 1) = history s ! nat (historyIndex s)"
    and "history s' ! nat (historyIndex s')
           = \<lparr>action = a, data = d, timestamp = t, state = snap_at (nextRef (heap s))\<rparr>"
    and "history_ok s'"
proof -
  let ?i = "nat (historyIndex s)"
  let ?new = "\<lparr>action = a, data = d, timestamp = t, state = snap_at (nextRef (heap s))\<rparr>"
  let ?h = "take (?i + 1) (history s) @ [?new]"
  have i: "?i < length (history s)" using ok pos by (simp add: history_ok_def)
  have lenk: "length (take (?i + 1) (history s)) = ?i + 1" using i by simp
  have h: "history s' = (if length ?h > 50 then tl ?h else ?h)"
    unfolding s'_def
    by (simp add: history_addToHistory kept_history_take [OF ok pos] Let_def addToHistory_proj)
  have idx: "historyIndex s' = int (length (history s')) - 1"
    unfolding s'_def by (rule historyIndex_addToHistory)
  have len: "length (history s') = (if ?i + 2 > 50 then ?i + 1 else ?i + 2)"
    using i by (simp add: h)
  show "0 < historyIndex s'" using idx len by (simp split: if_splits)
  show "history_ok s'" unfolding s'_def by (rule history_ok_addToHistory)
  have prev: "?h ! ?i = history s ! ?i" using i by (simp add: nth_append)
  have last: "?h ! (?i + 1) = ?new" using lenk by (simp add: nth_append del: length_take)
  show "history s' ! nat (historyIndex s' - 1) = history s ! nat (historyIndex s)"
  proof (cases "?i + 2 > 50")
    case True
    then have "nat (historyIndex s' - 1) = ?i - 1" using idx len pos by (simp add: nat_diff_distrib)
    moreover have "history s' = tl ?h" using True i by (simp add: h)
    moreover have "tl ?h ! (?i - 1) = ?h ! ?i" using True i by (simp add: nth_tl)
    ultimately show ?thesis using prev by simp
  next
    case False
    then have "nat (historyIndex s' - 1) = ?i" using idx len pos by simp
    moreover have "history s' = ?h" using False i by (simp add: h)
    ultimately show ?thesis using prev by simp
  qed
  show "history s' ! nat (historyIndex s') = ?new"
  proof (cases "?i + 2 > 50")
    case True
    then have "nat (historyIndex s') = ?i" using idx len pos by simp
    moreover have "history s' = tl ?h" using True i by (simp add: h)
    moreover have "tl ?h ! ?i = ?h ! (?i + 1)" using True i by (simp add: nth_tl)
    ultimately show ?thesis using last by simp
  next
    case False
    then have "nat (historyIndex s') = ?i + 1" using idx len pos by simp
    moreover have "history s' = ?h" using False i by (simp add: h)
    ultimately show ?thesis using last by simp
  qed
qed


lemma redo_moves:
  "history_ok s \<Longrightarrow> historyIndex s < int (length (history s)) - 1 \<Longrightarrow>
   after (redo s) =
     showInfo (T ActionRedone)
       (restoreState (state (history s ! nat (historyIndex s + 1)))
          (s\<lparr>historyIndex := historyIndex s + 1\<rparr>))"
  by (simp add: redo_def history_ok_def at_index_def Let_def after_def)

lemma addToHistory_store:
  "filterArrs (heap (addToHistory a d t s))
     = (filterArrs (heap s))(nextRef (heap s) + 1 := filters_of s)"
  "groupArrs (heap (addToHistory a d t s))
     = (groupArrs (heap s))(nextRef (heap s) + 2 := groups_of s)"
  "sortArrs (heap (addToHistory a d t s))
     = (sortArrs (heap s))(nextRef (heap s) + 3 := sorts_of s)"
  "filters (addToHistory a d t s) = filters s"
  "groups (addToHistory a d t s) = groups s"
  "sorts (addToHistory a d t s) = sorts s"
  by (simp_all add: addToHistory_def deepCopy_def Let_def)

lemma set_fields_store:
  "filterArrs (heap (set_fields fs s)) = filterArrs (heap s)"
  "groupArrs (heap (set_fields fs s)) = groupArrs (heap s)"
  "sortArrs (heap (set_fields fs s)) = sortArrs (heap s)"
  "filters (set_fields fs s) = filters s"
  "groups (set_fields fs s) = groups s"
  "sorts (set_fields fs s) = sorts s"
  by (simp_all add: set_fields_def)

lemma collections_restored:
  "fields_of (showInfo m (restoreState sn s)) = fieldArrs (heap s) (snap_selectedFields sn)"
  "filters_of (showInfo m (restoreState sn s)) = filterArrs (heap s) (snap_filters sn)"
  "groups_of (showInfo m (restoreState sn s)) = groupArrs (heap s) (snap_groups sn)"
  "sorts_of (showInfo m (restoreState sn s)) = sortArrs (heap s) (snap_sorts sn)"
  by (simp_all add: fields_of_def filters_of_def groups_of_def sorts_of_def showInfo_def
      notify_def restoreState_def)

text \<open>
  The logged actions of the source that change \<open>selectedFields\<close> in place
  (\<open>duplicateField\<close>, the confirmation of a bulk add) have the shape: write the live
  array, call \<open>addToHistory\<close>, show a success message. When the live array is not the
  array of the snapshot under the cursor, and that snapshot has the contents of the live
  collections, \<open>undo()\<close> after such an action gives back the collections from before
  the action, and \<open>redo()\<close> after that the collections from after it.
\<close>

lemma undo_redo_roundtrip_separate:
  fixes a d t fs s m
  defines "cur \<equiv> state (history s ! nat (historyIndex s))"
  defines "sA \<equiv> showSuccess m (addToHistory a d t (set_fields fs s))"
  defines "u \<equiv> after (undo sA)"
  defines "r \<equiv> after (redo u)"
  assumes ok: "history_ok s" and pos: "0 \<le> historyIndex s"
    and tracks: "snap_fields s cur = fields_of s" "snap_filter_list s cur = filters_of s"
      "snap_group_list s cur = groups_of s" "snap_sort_list s cur = sorts_of s"
    and separate: "snap_selectedFields cur \<noteq> selectedFields s"
    and older: "snap_selectedFields cur \<noteq> nextRef (heap s)"
      "snap_filters cur \<noteq> nextRef (heap s) + 1"
      "snap_groups cur \<noteq> nextRef (heap s) + 2" "snap_sorts cur \<noteq> nextRef (heap s) + 3"
  shows "fields_of u = fields_of s \<and> filters_of u = filters_of s
         \<and> groups_of u = groups_of s \<and> sorts_of u = sorts_of s"
    and "fields_of r = fields_of sA \<and> filters_of r = filters_of sA
         \<and> groups_of r = groups_of sA \<and> sorts_of r = sorts_of sA"
    and "fields_of sA = fs"
proof -
  let ?s1 = "set_fields fs s"
  have ok1: "history_ok ?s1" "0 \<le> historyIndex ?s1"
    using ok pos by (simp_all add: history_ok_def set_fields_proj)
  note e0 = addToHistory_entries [OF ok1, of a d t]
  have e: "0 < historyIndex sA"
    "history sA ! nat (historyIndex sA - 1) = history ?s1 ! nat (historyIndex ?s1)"
    "history sA ! nat (historyIndex sA)
       = \<lparr>action = a, data = d, timestamp = t, state = snap_at (nextRef (heap ?s1))\<rparr>"
    "history_ok sA"
    using e0 by (simp_all add: sA_def showSuccess_def notify_proj history_ok_def)
  have prev: "state (history sA ! nat (historyIndex sA - 1)) = cur"
    using e(2) by (simp add: cur_def set_fields_proj)
  have new: "state (history sA ! nat (historyIndex sA)) = snap_at (nextRef (heap s))"
    using e(3) by (simp add: set_fields_proj)
  have u_eq: "u = showInfo (T ActionUndone)
                    (restoreState cur (sA\<lparr>historyIndex := historyIndex sA - 1\<rparr>))"
    unfolding u_def using undo_moves [OF e(4) e(1)] by (simp add: prev)
  have fA: "fieldArrs (heap sA)
              = ((fieldArrs (heap s))(selectedFields s := fs))(nextRef (heap s) := fs)"
    by (simp add: sA_def showSuccess_def notify_proj addToHistory_proj set_fields_proj
        fields_of_set_fields)
  have rest1: "filters_of ?s1 = filters_of s" "groups_of ?s1 = groups_of s"
    "sorts_of ?s1 = sorts_of s"
    by (simp_all add: filters_of_def groups_of_def sorts_of_def set_fields_store)
  have oA: "filterArrs (heap sA) = (filterArrs (heap s))(nextRef (heap s) + 1 := filters_of s)"
    "groupArrs (heap sA) = (groupArrs (heap s))(nextRef (heap s) + 2 := groups_of s)"
    "sortArrs (heap sA) = (sortArrs (heap s))(nextRef (heap s) + 3 := sorts_of s)"
    by (simp_all add: sA_def showSuccess_def notify_proj addToHistory_store set_fields_store
        set_fields_proj rest1)
  have liveA: "filters sA = filters s" "groups sA = groups s" "sorts sA = sorts s"
    "selectedFields sA = selectedFields s"
    by (simp_all add: sA_def showSuccess_def notify_def addToHistory_store set_fields_store
        addToHistory_proj set_fields_proj)
  show A: "fields_of sA = fs"
    by (simp add: sA_def showSuccess_def notify_proj fields_of_addToHistory
        fields_of_set_fields)
  have restA: "filters_of sA = filters_of s" "groups_of sA = groups_of s"
    "sorts_of sA = sorts_of s"
    by (auto simp add: filters_of_def groups_of_def sorts_of_def oA liveA)
  show "fields_of u = fields_of s \<and> filters_of u = filters_of s
         \<and> groups_of u = groups_of s \<and> sorts_of u = sorts_of s"
    using tracks separate older
    by (simp add: u_eq collections_restored fA oA snap_fields_def snap_filter_list_def
        snap_group_list_def snap_sort_list_def)
  have hu: "history u = history sA" "historyIndex u = historyIndex sA - 1" "heap u = heap sA"
    by (simp_all add: u_eq showInfo_def notify_proj restoreState_proj)
  have oku: "history_ok u" "historyIndex u < int (length (history u)) - 1"
    using e(1) e(4) by (simp_all add: history_ok_def hu)
  have r_eq: "r = showInfo (T ActionRedone)
                    (restoreState (snap_at (nextRef (heap s)))
                       (u\<lparr>historyIndex := historyIndex u + 1\<rparr>))"
    unfolding r_def using redo_moves [OF oku] by (simp add: hu new)
  show "fields_of r = fields_of sA \<and> filters_of r = filters_of sA
         \<and> groups_of r = groups_of sA \<and> sorts_of r = sorts_of sA"
    by (simp add: r_eq collections_restored hu fA oA snap_at_def A restA)
qed

text \<open>The same for \<open>duplicateField\<close> itself.\<close>

lemma duplicateField_undo_separate:
  assumes found: "find (\<lambda>f. name f = n) (fields_of s) = Some orig"
    and ok: "history_ok s" and pos: "0 \<le> historyIndex s"
    and tracks: "snap_fields s (state (history s ! nat (historyIndex s))) = fields_of s"
      "snap_filter_list s (state (history s ! nat (historyIndex s))) = filters_of s"
      "snap_group_list s (state (history s ! nat (historyIndex s))) = groups_of s"
      "snap_sort_list s (state (history s ! nat (historyIndex s))) = sorts_of s"
    and separate:
      "snap_selectedFields (state (history s ! nat (historyIndex s))) \<noteq> selectedFields s"
    and older:
      "snap_selectedFields (state (history s ! nat (historyIndex s))) \<noteq> nextRef (heap s)"
      "snap_filters (state (history s ! nat (historyIndex s))) \<noteq> nextRef (heap s) + 1"
      "snap_groups (state (history s ! nat (historyIndex s))) \<noteq> nextRef (heap s) + 2"
      "snap_sorts (state (history s ! nat (historyIndex s))) \<noteq> nextRef (heap s) + 3"
  shows "fields_of (after (undo (duplicateField n t s))) = fields_of s"
    and "fields_of (after (redo (after (undo (duplicateField n t s)))))
           = fields_of (duplicateField n t s)"
  using undo_redo_roundtrip_separate [OF ok pos tracks separate older,
      where a = "''duplicate_field''" and d = "DataField n" and t = t
        and m = "T FieldDuplicated"
        and fs = "fields_of s @ [orig\<lparr>label := label orig @ copy_suffix,
                                       sequence := int (length (fields_of s)) + 1\<rparr>]"]
  by (simp_all add: duplicateField_found [OF found])

section \<open>What a failed change of model leaves\<close>

lemma onModelChange_failure_frame:
  assumes truthy: "\<not> falsy_id modelId"
    and fails: "find (\<lambda>m. Some (m_id m) = modelId) (availableModels s) = None
                \<or> (\<exists>e. rpc_reply = Rejected e)
                \<or> (\<exists>res. rpc_reply = Resolved res \<and> \<not> fr_success res)"
  shows "loading (onModelChange modelId rpc_reply s) = False"
    and "availableFields (onModelChange modelId rpc_reply s) = availableFields s"
    and "selectedFields (onModelChange modelId rpc_reply s) = selectedFields s
         \<and> filters (onModelChange modelId rpc_reply s) = filters s
         \<and> groups (onModelChange modelId rpc_reply s) = groups s
         \<and> sorts (onModelChange modelId rpc_reply s) = sorts s
         \<and> heap (onModelChange modelId rpc_reply s) = heap s"
    and "\<exists>m. notifications (onModelChange modelId rpc_reply s)
               = notifications s @ [\<lparr>n_type = Danger, sticky = True, n_message = m\<rparr>]"
    and "selectedModel (onModelChange modelId rpc_reply s)
           = (case find (\<lambda>m. Some (m_id m) = modelId) (availableModels s) of
                None \<Rightarrow> selectedModel s | Some model \<Rightarrow> Some model)"
  using assms
  by (auto simp add: onModelChange_def Let_def showError_def notify_def
      split: option.splits reply.splits)

text \<open>
  For instance the first undo of the example session: the live array of \<open>logged1\<close> is
  not shared with its snapshot, and undoing the duplication gives the single field back.
\<close>

lemma first_undo_restores:
  "fields_of (after (undo (duplicateField ''name'' 2 logged1))) = fields_of logged1"
proof -
  have f: "fields_of logged1 = [nm]" by (simp add: fields_of_def logged1_facts)
  have found: "find (\<lambda>f. name f = ''name'') (fields_of logged1) = Some nm"
    unfolding f by (rule find_nm)
  have ok: "history_ok logged1" "0 \<le> historyIndex logged1"
    by (simp_all add: history_ok_def logged1_facts)
  have cur: "state (history logged1 ! nat (historyIndex logged1)) = snap_at 4"
    by (simp add: logged1_facts)
  have rest: "filters logged1 = Suc 0" "groups logged1 = 2" "sorts logged1 = 3"
    "filterArrs (heap logged1) 5 = []" "filterArrs (heap logged1) (Suc 0) = []"
    "groupArrs (heap logged1) 6 = []" "groupArrs (heap logged1) 2 = []"
    "sortArrs (heap logged1) 7 = []" "sortArrs (heap logged1) 3 = []"
    by (simp_all add: logged1_def addToHistory_store one_field_facts filters_of_def
        groups_of_def sorts_of_def one_field_def partner_loaded_def setup_widget_def
        addField_def fields_of_def set_fields_def showSuccess_def showWarning_def notify_def)
  show ?thesis
    by (rule duplicateField_undo_separate(1) [OF found ok])
       (simp_all add: cur snap_at_def snap_fields_def snap_filter_list_def snap_group_list_def
          snap_sort_list_def fields_of_def filters_of_def groups_of_def sorts_of_def
          logged1_facts rest)
qed

end
